theory Spec2Isabelle
  imports Complex_Main
begin

section \<open>Values shared by the modules\<close>

text \<open>
  The Python modules \<open>fingerprint.py\<close>, \<open>storage.py\<close> and \<open>recognise.py\<close> are embedded
  as HOL functions. Frequencies, times and spectrogram powers are IEEE doubles in the
  program; they are modelled as reals, so the embedding covers finite values (the
  spectrogram axes and powers are finite) and ignores rounding. Python integers are
  \<open>int\<close> or \<open>nat\<close>, strings are \<open>string\<close>.
\<close>

datatype error = TypeError | ValueError | KeyError | IndexError | ExternalFailure string

text \<open>A peak resolved to values: \<open>(frequency, time)\<close>, so \<open>p[0] = fst p\<close>, \<open>p[1] = snd p\<close>.\<close>

type_synonym point = "real \<times> real"

text \<open>A fingerprint record \<open>(hash, time offset, song_id)\<close>.\<close>

type_synonym hash_record = "int \<times> real \<times> string"

text \<open>Tags \<open>(artist, album, title)\<close>, each of which may be Python's \<open>None\<close>.\<close>

type_synonym song_info = "string option \<times> string option \<times> string option"

section \<open>settings.py\<close>

definition PEAK_BOX_SIZE :: nat where
  "PEAK_BOX_SIZE = 30"

definition POINT_EFFICIENCY :: real where
  "POINT_EFFICIENCY = 8 / 10"

definition TARGET_START :: real where
  "TARGET_START = 5 / 100"

definition TARGET_T :: real where
  "TARGET_T = 18 / 10"

definition TARGET_F :: real where
  "TARGET_F = 4000"

section \<open>fingerprint.py\<close>

subsection \<open>Hashing pairs of peaks\<close>

text \<open>
  \<open>hash_point_pair\<close> applies Python's builtin \<open>hash\<close> to a three-tuple. The builtin is
  not part of the repository; it is the parameter \<open>py_hash\<close>.
\<close>

definition hash_point_pair :: "(real \<times> real \<times> real \<Rightarrow> int) \<Rightarrow> point \<Rightarrow> point \<Rightarrow> int" where
  "hash_point_pair py_hash p1 p2 = py_hash (fst p1, fst p2, snd p2 - snd p2)"

text \<open>
  The generator \<open>target_zone\<close>: the points are visited in order, a point outside the
  frequency band or outside the time band is skipped (\<open>continue\<close>), the others are
  yielded.
\<close>

fun target_zone :: "point \<Rightarrow> point list \<Rightarrow> real \<Rightarrow> real \<Rightarrow> real \<Rightarrow> point list" where
  "target_zone anchor [] width height t = []"
| "target_zone anchor (point # points) width height t =
     (let x_min = snd anchor + t;
          x_max = x_min + width;
          y_min = fst anchor - (height * (1 / 2));
          y_max = y_min + height
      in if fst point < y_min \<or> fst point > y_max then target_zone anchor points width height t
         else if snd point < x_min \<or> snd point > x_max then target_zone anchor points width height t
         else point # target_zone anchor points width height t)"

text \<open>Python's \<open>str\<close> on a non-negative integer: its decimal digits.\<close>

definition digit_char :: "nat \<Rightarrow> char" where
  "digit_char d = char_of (48 + d)"

function str_nat :: "nat \<Rightarrow> string" where
  "str_nat n = (if n < 10 then [digit_char n] else str_nat (n div 10) @ [digit_char (n mod 10)])"
  by pat_completeness auto
termination
  by (relation "measure (\<lambda>n. n)") auto

declare str_nat.simps [simp del]

text \<open>
  \<open>uuid.uuid5(uuid.NAMESPACE_OID, filename).int\<close> is a library function (SHA-1 of the
  name under a fixed namespace, read as a 128-bit integer); it is the parameter
  \<open>uuid5_int\<close>. Both \<open>hash_points\<close> and \<open>song_in_db\<close> stringify its result.
\<close>

definition song_id_of :: "(string \<Rightarrow> nat) \<Rightarrow> string \<Rightarrow> string" where
  "song_id_of uuid5_int filename = str_nat (uuid5_int filename)"

text \<open>
  \<open>hash_points\<close>: the two nested \<open>for\<close> loops append to the list \<open>hashes\<close>; each loop
  is a left fold whose accumulator is that list.
\<close>

definition hash_points ::
  "(real \<times> real \<times> real \<Rightarrow> int) \<Rightarrow> (string \<Rightarrow> nat) \<Rightarrow> point list \<Rightarrow> string \<Rightarrow> hash_record list" where
  "hash_points py_hash uuid5_int points filename =
     (let song_id = uuid5_int filename
      in foldl (\<lambda>hashes anchor.
                  foldl (\<lambda>hashes target.
                           hashes @ [(hash_point_pair py_hash anchor target, snd anchor, str_nat song_id)])
                        hashes
                        (target_zone anchor points TARGET_T TARGET_F TARGET_START))
               [] points)"

subsection \<open>Peak extraction\<close>

text \<open>
  A spectrogram is \<open>(f, t, Sxx)\<close>: the frequency axis, the time axis and the power
  matrix, a list of rows indexed \<open>Sxx[frequency index][time index]\<close>. \<open>shape0\<close> and
  \<open>shape1\<close> are \<open>Sxx.shape[0]\<close> and \<open>Sxx.shape[1]\<close> (a numpy array is rectangular, so
  every row has the length of the first).
\<close>

type_synonym spectrogram = "real list \<times> real list \<times> real list list"

definition shape0 :: "real list list \<Rightarrow> nat" where
  "shape0 Sxx = length Sxx"

definition shape1 :: "real list list \<Rightarrow> nat" where
  "shape1 Sxx = (case Sxx of [] \<Rightarrow> 0 | row # _ \<Rightarrow> length row)"

text \<open>
  \<open>scipy.ndimage.maximum_filter(Sxx, size, mode='constant', cval)\<close>: the value at
  \<open>(y, x)\<close> is the maximum over the square window of \<open>size\<close> cells per axis placed at
  offsets \<open>- (size div 2) .. size - size div 2 - 1\<close> (for the even size 30: \<open>-15 .. 14\<close>),
  where a cell outside the array reads as \<open>cval\<close>.
\<close>

definition cell :: "real list list \<Rightarrow> real \<Rightarrow> int \<Rightarrow> int \<Rightarrow> real" where
  "cell Sxx cval y x =
     (if 0 \<le> y \<and> y < int (shape0 Sxx) \<and> 0 \<le> x \<and> x < int (shape1 Sxx)
      then Sxx ! nat y ! nat x else cval)"

definition window :: "nat \<Rightarrow> int list" where
  "window box = [- int (box div 2) .. int box - int (box div 2) - 1]"

definition neighbourhood :: "real list list \<Rightarrow> nat \<Rightarrow> real \<Rightarrow> nat \<Rightarrow> nat \<Rightarrow> real list" where
  "neighbourhood Sxx box cval y x =
     concat (map (\<lambda>dy. map (\<lambda>dx. cell Sxx cval (int y + dy) (int x + dx)) (window box))
                 (window box))"

definition maximum_filter :: "real list list \<Rightarrow> nat \<Rightarrow> real \<Rightarrow> real list list" where
  "maximum_filter Sxx box cval =
     map (\<lambda>y. map (\<lambda>x. Max (set (neighbourhood Sxx box cval y x))) [0..<shape1 Sxx])
         [0..<shape0 Sxx]"

text \<open>
  \<open>a.argsort()\<close>: the indices that sort \<open>a\<close> in ascending order. numpy's default sort is
  not stable, so the order of indices of equal values is not fixed by the library;
  the model takes the stable order.
\<close>

definition argsort :: "real list \<Rightarrow> nat list" where
  "argsort a = map snd (sort_key fst (zip a [0..<length a]))"

definition find_peaks :: "real list list \<Rightarrow> (nat \<times> nat) list" where
  "find_peaks Sxx =
     (let data_max = maximum_filter Sxx PEAK_BOX_SIZE 0;
          peaks = concat (map (\<lambda>y. map (\<lambda>x. (y, x))
                                         (filter (\<lambda>x. Sxx ! y ! x = data_max ! y ! x) [0..<shape1 Sxx]))
                              [0..<shape0 Sxx]);
          peak_values = map (\<lambda>(y, x). Sxx ! y ! x) peaks;
          i = rev (argsort peak_values);
          j = map (\<lambda>idx. peaks ! idx) i;
          total = shape0 Sxx * shape1 Sxx;
          peak_target = nat \<lfloor>(real total / real (PEAK_BOX_SIZE ^ 2)) * POINT_EFFICIENCY\<rfloor>
      in take peak_target j)"

text \<open>
  Three parts of \<open>find_peaks\<close> by name, for the proofs: the budget \<open>peak_target\<close>, the
  coordinates \<open>peak_goodmask.nonzero()\<close> in row-major order, and the list \<open>j\<close> of all
  peak coordinates by descending power.
\<close>

definition peak_target :: "real list list \<Rightarrow> nat" where
  "peak_target Sxx = nat \<lfloor>(real (shape0 Sxx * shape1 Sxx) / real (PEAK_BOX_SIZE ^ 2)) * POINT_EFFICIENCY\<rfloor>"

definition peak_cells :: "real list list \<Rightarrow> (nat \<times> nat) list" where
  "peak_cells Sxx =
     concat (map (\<lambda>y. map (\<lambda>x. (y, x))
                (filter (\<lambda>x. Sxx ! y ! x = maximum_filter Sxx PEAK_BOX_SIZE 0 ! y ! x) [0..<shape1 Sxx]))
              [0..<shape0 Sxx])"

definition ranked_peaks :: "real list list \<Rightarrow> (nat \<times> nat) list" where
  "ranked_peaks Sxx =
     map (\<lambda>idx. peak_cells Sxx ! idx) (rev (argsort (map (\<lambda>(y, x). Sxx ! y ! x) (peak_cells Sxx))))"

text \<open>
  A test spectrogram matrix: \<open>H\<close> rows of two columns, all zero except the power 2 at
  \<open>(a, 0)\<close> and the power 1 at \<open>(b, 1)\<close>.
\<close>

definition two_tone :: "nat \<Rightarrow> nat \<Rightarrow> nat \<Rightarrow> real list list" where
  "two_tone H a b = (replicate H [0, 0])[a := [2, 0], b := [0, 1]]"

text \<open>\<open>idxs_to_tf_pairs\<close> reads both axes by index; an index out of range raises.\<close>

definition idxs_to_tf_pairs :: "(nat \<times> nat) list \<Rightarrow> real list \<Rightarrow> real list \<Rightarrow> error + point list" where
  "idxs_to_tf_pairs idxs t f =
     (if list_all (\<lambda>i. fst i < length f \<and> snd i < length t) idxs
      then Inr (map (\<lambda>i. (f ! fst i, t ! snd i)) idxs)
      else Inl IndexError)"

text \<open>
  \<open>file_to_spectrogram\<close> and \<open>my_spectrogram\<close> only call the audio decoder and
  \<open>scipy.signal.spectrogram\<close>; they are parameters that return a spectrogram or raise.
\<close>

definition fingerprint_file ::
  "(string \<Rightarrow> error + spectrogram) \<Rightarrow> (real \<times> real \<times> real \<Rightarrow> int) \<Rightarrow> (string \<Rightarrow> nat) \<Rightarrow>
   string \<Rightarrow> error + hash_record list" where
  "fingerprint_file file_to_spectrogram py_hash uuid5_int filename =
     (case file_to_spectrogram filename of
        Inl e \<Rightarrow> Inl e
      | Inr (f, t, Sxx) \<Rightarrow>
          (case idxs_to_tf_pairs (find_peaks Sxx) t f of
             Inl e \<Rightarrow> Inl e
           | Inr peaks \<Rightarrow> Inr (hash_points py_hash uuid5_int peaks filename)))"

definition fingerprint_audio ::
  "('frames \<Rightarrow> error + spectrogram) \<Rightarrow> (real \<times> real \<times> real \<Rightarrow> int) \<Rightarrow> (string \<Rightarrow> nat) \<Rightarrow>
   'frames \<Rightarrow> error + hash_record list" where
  "fingerprint_audio my_spectrogram py_hash uuid5_int frames =
     (case my_spectrogram frames of
        Inl e \<Rightarrow> Inl e
      | Inr (f, t, Sxx) \<Rightarrow>
          (case idxs_to_tf_pairs (find_peaks Sxx) t f of
             Inl e \<Rightarrow> Inl e
           | Inr peaks \<Rightarrow> Inr (hash_points py_hash uuid5_int peaks ''recorded'')))"

section \<open>storage.py\<close>

text \<open>
  The SQLite database after \<open>setup_db\<close>: the table \<open>hash (hash, offset, song_id)\<close> and
  the table \<open>song_info (artist, album, title, song_id)\<close>, each a list of rows in
  insertion order. A function that writes returns the committed database; when it
  raises before \<open>conn.commit()\<close> the connection is closed without a commit, so the
  result \<open>Inl e\<close> stands for "raised, database unchanged". Failures of the connection
  itself are outside the model.
\<close>

record database =
  hash_table :: "hash_record list"
  song_info_table :: "(string \<times> string \<times> string \<times> string) list"

definition row_song_id :: "string \<times> string \<times> string \<times> string \<Rightarrow> string" where
  "row_song_id row = snd (snd (snd row))"

text \<open>\<open>song_in_db\<close>: \<open>fetchone()\<close> is the first selected row or \<open>None\<close>.\<close>

definition song_in_db :: "(string \<Rightarrow> nat) \<Rightarrow> database \<Rightarrow> string \<Rightarrow> bool" where
  "song_in_db uuid5_int db filename =
     (let song_id = str_nat (uuid5_int filename)
      in find (\<lambda>row. row_song_id row = song_id) (song_info_table db) \<noteq> None)"

text \<open>
  \<open>store_song\<close>. The argument \<open>song_info\<close> is a Python value that may be \<open>None\<close>
  (\<open>None :: song_info option\<close>): the comprehension \<open>for i in song_info\<close> then raises
  \<open>TypeError\<close>, after \<open>executemany\<close> and before the commit.
\<close>

definition store_song :: "hash_record list \<Rightarrow> song_info option \<Rightarrow> database \<Rightarrow> error + database" where
  "store_song hashes song_info db =
     (if length hashes < 1 then Inr db
      else
        let db1 = db\<lparr>hash_table := hash_table db @ hashes\<rparr>
        in case song_info of
             None \<Rightarrow> Inl TypeError
           | Some (i0, i1, i2) \<Rightarrow>
               let insert_info = map (\<lambda>i. case i of Some s \<Rightarrow> s | None \<Rightarrow> ''Unknown'') [i0, i1, i2]
               in Inr (db1\<lparr>song_info_table := song_info_table db1 @
                            [(insert_info ! 0, insert_info ! 1, insert_info ! 2,
                              snd (snd (hd hashes)))]\<rparr>))"

text \<open>
  The result of \<open>get_matches\<close> is a \<open>defaultdict(list)\<close>: an association list in
  insertion order; \<open>result_dict[k].append(v)\<close> is \<open>dict_append\<close>.
\<close>

type_synonym match_set = "(string \<times> (real \<times> real) list) list"

fun dict_append :: "'k \<Rightarrow> 'v \<Rightarrow> ('k \<times> 'v list) list \<Rightarrow> ('k \<times> 'v list) list" where
  "dict_append k v [] = [(k, [v])]"
| "dict_append k v ((k', vs) # d) =
     (if k = k' then (k', vs @ [v]) # d else (k', vs) # dict_append k v d)"

text \<open>Reading \<open>result_dict[k]\<close>: a key that was never written reads as the empty list.\<close>

definition dict_get :: "('k \<times> 'v list) list \<Rightarrow> 'k \<Rightarrow> 'v list" where
  "dict_get d k = (case map_of d k of None \<Rightarrow> [] | Some vs \<Rightarrow> vs)"

text \<open>The loop over the fetched rows; \<open>h_dict[r[0]]\<close> raises \<open>KeyError\<close> on a missing key.\<close>

fun group_results :: "(int \<rightharpoonup> real) \<Rightarrow> hash_record list \<Rightarrow> match_set \<Rightarrow> error + match_set" where
  "group_results h_dict [] result_dict = Inr result_dict"
| "group_results h_dict (r # results) result_dict =
     (case h_dict (fst r) of
        None \<Rightarrow> Inl KeyError
      | Some t \<Rightarrow>
          group_results h_dict results (dict_append (snd (snd r)) (fst (snd r), t) result_dict))"

text \<open>
  \<open>get_matches\<close>. \<open>build_h_dict\<close> is the loop \<open>h_dict[h] = t\<close> over the query records. The statement \<open>SELECT hash, offset, song_id FROM hash WHERE hash IN (...)\<close>
  lists the decimal text of every query hash; it selects the rows whose hash is one of
  them (none for the empty list \<open>()\<close>, which SQLite accepts). SQL leaves the order of
  the selected rows open; the model takes the table order. The parameter \<open>threshold\<close>
  is never read and is left out.
\<close>

definition build_h_dict :: "hash_record list \<Rightarrow> (int \<rightharpoonup> real)" where
  "build_h_dict hashes = foldl (\<lambda>h_dict (h, t, _). h_dict(h \<mapsto> t)) Map.empty hashes"

definition get_matches :: "hash_record list \<Rightarrow> database \<Rightarrow> error + match_set" where
  "get_matches hashes db =
     (let h_dict = build_h_dict hashes;
          in_values = map fst hashes;
          results = filter (\<lambda>r. fst r \<in> set in_values) (hash_table db)
      in group_results h_dict results [])"

text \<open>
  \<open>get_info_for_song_id\<close>: the argument may be \<open>None\<close>, which is bound as SQL \<open>NULL\<close>;
  \<open>song_id = NULL\<close> holds for no row.
\<close>

definition get_info_for_song_id :: "database \<Rightarrow> string option \<Rightarrow> (string \<times> string \<times> string) option" where
  "get_info_for_song_id db song_id =
     (case song_id of
        None \<Rightarrow> None
      | Some s \<Rightarrow>
          map_option (\<lambda>(c0, c1, c2, _). (c0, c1, c2))
            (find (\<lambda>row. row_song_id row = s) (song_info_table db)))"

section \<open>recognise.py\<close>

text \<open>
  Standard output is the list of printed values. \<open>print\<close> writes its argument and
  returns \<open>None\<close>.
\<close>

datatype printed =
    PTags song_info
  | PInfo "string \<times> string \<times> string"
  | PText string

definition py_print :: "printed \<Rightarrow> printed list \<Rightarrow> 'a option \<times> printed list" where
  "py_print x out = (None, out @ [x])"

record tag =
  artist :: "string option"
  albumartist :: "string option"
  album :: "string option"
  title :: "string option"

text \<open>\<open>TinyTag.get\<close> is the parameter \<open>tinytag_get\<close>: it returns the tags or raises.\<close>

definition get_song_info ::
  "(string \<Rightarrow> error + tag) \<Rightarrow> string \<Rightarrow> printed list \<Rightarrow> error + (song_info option \<times> printed list)" where
  "get_song_info tinytag_get filename out =
     (case tinytag_get filename of
        Inl e \<Rightarrow> Inl e
      | Inr tg \<Rightarrow>
          let artist' = (if albumartist tg = None then artist tg else albumartist tg)
          in Inr (py_print (PTags (artist', album tg, title tg)) out))"

text \<open>
  \<open>register_song\<close>. \<open>lock_defined\<close> says whether the global \<open>lock\<close> exists (it does in a
  pool worker). Without it \<open>with lock\<close> raises \<open>NameError\<close> before \<open>store_song\<close> is
  called, and the handler calls \<open>store_song\<close>; an error of \<open>store_song\<close> itself is
  not a \<open>NameError\<close> and propagates on both paths. Logging is left out.
\<close>

definition register_song ::
  "(string \<Rightarrow> error + spectrogram) \<Rightarrow> (real \<times> real \<times> real \<Rightarrow> int) \<Rightarrow> (string \<Rightarrow> nat) \<Rightarrow>
   (string \<Rightarrow> error + tag) \<Rightarrow> bool \<Rightarrow> string \<Rightarrow> database \<Rightarrow> printed list \<Rightarrow>
   error + (database \<times> printed list)" where
  "register_song file_to_spectrogram py_hash uuid5_int tinytag_get lock_defined filename db out =
     (if song_in_db uuid5_int db filename then Inr (db, out)
      else
        case fingerprint_file file_to_spectrogram py_hash uuid5_int filename of
          Inl e \<Rightarrow> Inl e
        | Inr hashes \<Rightarrow>
            (case get_song_info tinytag_get filename out of
               Inl e \<Rightarrow> Inl e
             | Inr (song_info, out') \<Rightarrow>
                 if lock_defined
                 then (case store_song hashes song_info db of
                         Inl e \<Rightarrow> Inl e
                       | Inr db' \<Rightarrow> Inr (db', out'))
                 else (case store_song hashes song_info db of
                         Inl e \<Rightarrow> Inl e
                       | Inr db' \<Rightarrow> Inr (db', out'))))"

subsection \<open>Scoring\<close>

text \<open>\<open>min\<close>, \<open>max\<close> and \<open>np.max\<close> raise \<open>ValueError\<close> on an empty sequence.\<close>

definition py_min :: "'a::linorder list \<Rightarrow> error + 'a" where
  "py_min xs = (case xs of [] \<Rightarrow> Inl ValueError | x # ys \<Rightarrow> Inr (fold min ys x))"

definition py_max :: "'a::linorder list \<Rightarrow> error + 'a" where
  "py_max xs = (case xs of [] \<Rightarrow> Inl ValueError | x # ys \<Rightarrow> Inr (fold max ys x))"

text \<open>\<open>int(x)\<close> on a float truncates towards zero.\<close>

definition py_int :: "real \<Rightarrow> int" where
  "py_int x = (if 0 \<le> x then \<lfloor>x\<rfloor> else \<lceil>x\<rceil>)"

text \<open>
  \<open>np.arange(start, stop, step)\<close> for a positive step: the values \<open>start + k * step\<close>
  below \<open>stop\<close>, of which there are \<open>ceil((stop - start) / step)\<close>.
\<close>

definition arange :: "real \<Rightarrow> real \<Rightarrow> real \<Rightarrow> real list" where
  "arange start stop step =
     map (\<lambda>k. start + real k * step) [0..<nat \<lceil>(stop - start) / step\<rceil>]"

text \<open>
  \<open>np.histogram(a, bins=edges)\<close> with explicit increasing edges: bin \<open>i\<close> counts the
  values in \<open>[edges[i], edges[i+1])\<close>, and the last bin also includes its right edge.
  Values outside \<open>[edges[0], edges[-1]]\<close> are counted nowhere.
\<close>

definition in_bin :: "real list \<Rightarrow> nat \<Rightarrow> real \<Rightarrow> bool" where
  "in_bin edges i x =
     (edges ! i \<le> x \<and> (if i + 2 = length edges then x \<le> edges ! (i + 1) else x < edges ! (i + 1)))"

definition histogram :: "real list \<Rightarrow> real list \<Rightarrow> nat list" where
  "histogram a edges = map (\<lambda>i. length (filter (in_bin edges i) a)) [0..<length edges - 1]"

text \<open>The bin edges \<open>np.arange(int(min(tks)), int(max(tks)) + binwidth + 1, binwidth)\<close>.\<close>

definition delta_bins :: "real \<Rightarrow> real \<Rightarrow> real \<Rightarrow> real list" where
  "delta_bins lo hi binwidth =
     arange (of_int (py_int lo)) (of_int (py_int hi) + binwidth + 1) binwidth"

definition score_match :: "(real \<times> real) list \<Rightarrow> error + nat" where
  "score_match offsets =
     (let binwidth = 1 / 2;
          tks = map (\<lambda>x. fst x - snd x) offsets
      in case py_min tks of
           Inl e \<Rightarrow> Inl e
         | Inr lo \<Rightarrow>
             (case py_max tks of
                Inl e \<Rightarrow> Inl e
              | Inr hi \<Rightarrow>
                  py_max (histogram tks (delta_bins lo hi binwidth))))"

text \<open>
  \<open>best_match\<close>: the loop over \<open>matches.items()\<close> with the state
  \<open>(matched_song, best_score)\<close>.
\<close>

fun best_match_loop :: "match_set \<Rightarrow> string option \<Rightarrow> nat \<Rightarrow> error + string option" where
  "best_match_loop [] matched_song best_score = Inr matched_song"
| "best_match_loop ((song_id, offsets) # items) matched_song best_score =
     (if length offsets < best_score then best_match_loop items matched_song best_score
      else
        case score_match offsets of
          Inl e \<Rightarrow> Inl e
        | Inr score \<Rightarrow>
            if score > best_score then best_match_loop items (Some song_id) score
            else best_match_loop items matched_song best_score)"

definition best_match :: "match_set \<Rightarrow> error + string option" where
  "best_match matches = best_match_loop matches None 0"

text \<open>
  The naive variant the specification compares \<open>best_match\<close> with: the same loop
  without the skip, so that every song of the match set is scored.
\<close>

fun best_match_naive_loop :: "match_set \<Rightarrow> string option \<Rightarrow> nat \<Rightarrow> error + string option" where
  "best_match_naive_loop [] matched_song best_score = Inr matched_song"
| "best_match_naive_loop ((song_id, offsets) # items) matched_song best_score =
     (case score_match offsets of
        Inl e \<Rightarrow> Inl e
      | Inr score \<Rightarrow>
          if score > best_score then best_match_naive_loop items (Some song_id) score
          else best_match_naive_loop items matched_song best_score)"

definition best_match_naive :: "match_set \<Rightarrow> error + string option" where
  "best_match_naive matches = best_match_naive_loop matches None 0"

text \<open>
  \<open>recognise_song\<close> returns a Python value: the result of \<open>print(info)\<close>, or
  \<open>matched_song\<close>, a song id or \<open>None\<close>.
\<close>

definition recognise_song ::
  "(string \<Rightarrow> error + spectrogram) \<Rightarrow> (real \<times> real \<times> real \<Rightarrow> int) \<Rightarrow> (string \<Rightarrow> nat) \<Rightarrow>
   string \<Rightarrow> database \<Rightarrow> printed list \<Rightarrow> error + (string option \<times> printed list)" where
  "recognise_song file_to_spectrogram py_hash uuid5_int filename db out =
     (case fingerprint_file file_to_spectrogram py_hash uuid5_int filename of
        Inl e \<Rightarrow> Inl e
      | Inr hashes \<Rightarrow>
          (case get_matches hashes db of
             Inl e \<Rightarrow> Inl e
           | Inr matches \<Rightarrow>
               (case best_match matches of
                  Inl e \<Rightarrow> Inl e
                | Inr matched_song \<Rightarrow>
                    (case get_info_for_song_id db matched_song of
                       Some info \<Rightarrow> Inr (py_print (PInfo info) out)
                     | None \<Rightarrow>
                         let (_, out') = (py_print (PText ''Did not find a result'') out
                                            :: unit option \<times> printed list)
                         in Inr (matched_song, out')))))"

section \<open>Properties of fingerprint.py\<close>

text \<open>
  C1. For every anchor \<open>p1\<close> and target \<open>p2\<close> the third component of the hashed tuple is
  zero, so the hash is the builtin applied to \<open>(p1[0], p2[0], 0)\<close>: two pairs of points
  with the same anchor frequency and the same target frequency get the same hash,
  whatever their times.
\<close>

theorem hash_point_pair_time_independent:
  "hash_point_pair py_hash p1 p2 = py_hash (fst p1, fst p2, 0) \<and>
   (fst p1 = fst q1 \<and> fst p2 = fst q2 \<longrightarrow>
      hash_point_pair py_hash p1 p2 = hash_point_pair py_hash q1 q2)"
  by (simp add: hash_point_pair_def)

theorem hash_point_pair_time_independent_witness:
  "hash_point_pair (\<lambda>(a, b, c). \<lfloor>a + 2 * b + 1000 * c\<rfloor>) (440, 1) (880, 2) = 2200 \<and>
   hash_point_pair (\<lambda>(a, b, c). \<lfloor>a + 2 * b + 1000 * c\<rfloor>) (440, 1) (880, 2)
     = hash_point_pair (\<lambda>(a, b, c). \<lfloor>a + 2 * b + 1000 * c\<rfloor>) (440, 7) (880, 9)"
  using hash_point_pair_time_independent
          [of "\<lambda>(a, b, c). \<lfloor>a + 2 * b + 1000 * c\<rfloor>" "(440, 1)" "(880, 2)" "(440, 7)" "(880, 9)"]
  by simp

subsection \<open>Peak extraction\<close>

lemma find_peaks_alt:
  "find_peaks Sxx =
     take (peak_target Sxx)
       (map (\<lambda>idx. peak_cells Sxx ! idx) (rev (argsort (map (\<lambda>(y, x). Sxx ! y ! x) (peak_cells Sxx)))))"
  by (simp add: find_peaks_def peak_target_def peak_cells_def Let_def)

lemma length_find_peaks: "length (find_peaks Sxx) \<le> peak_target Sxx"
  by (simp add: find_peaks_alt)

lemma find_peaks_ranked: "find_peaks Sxx = take (peak_target Sxx) (ranked_peaks Sxx)"
  by (simp add: find_peaks_alt ranked_peaks_def)

lemma argsort_set: "set (argsort a) = {0..<length a}"
proof -
  have "map snd (zip a [0..<length a]) = [0..<length a]"
    by simp
  then have "snd ` set (zip a [0..<length a]) = set [0..<length a]"
    by (metis set_map)
  then show ?thesis by (simp add: argsort_def)
qed

lemma argsort_values_sorted: "sorted (map (\<lambda>idx. a ! idx) (argsort a))"
proof -
  have "\<forall>p \<in> set (sort_key fst (zip a [0..<length a])). a ! snd p = fst p"
    by (auto simp: set_zip)
  then have "map (\<lambda>idx. a ! idx) (argsort a) = map fst (sort_key fst (zip a [0..<length a]))"
    by (simp add: argsort_def)
  then show ?thesis by (simp add: sorted_sort_key)
qed

lemma argsort_distinct: "distinct (argsort a)"
proof -
  have "distinct (map snd (zip a [0..<length a]))" by simp
  then have "distinct (map snd (sort_key fst (zip a [0..<length a])))"
    by (simp only: distinct_map distinct_sort set_sort)
  then show ?thesis by (simp add: argsort_def)
qed

lemma peak_cells_product:
  "concat (map (\<lambda>y. map (\<lambda>x. (y, x)) (filter (P y) xs)) ys)
     = filter (\<lambda>(y, x). P y x) (List.product ys xs)"
  by (induction ys) (simp_all add: filter_map comp_def)

lemma distinct_peak_cells: "distinct (peak_cells Sxx)"
  unfolding peak_cells_def peak_cells_product
  by (simp add: distinct_product)

lemma ranked_peaks_set: "set (ranked_peaks Sxx) = set (peak_cells Sxx)"
proof -
  let ?peaks = "peak_cells Sxx"
  let ?a = "map (\<lambda>(y, x). Sxx ! y ! x) ?peaks"
  have "set (ranked_peaks Sxx) = (\<lambda>idx. ?peaks ! idx) ` {0..<length ?peaks}"
    by (simp add: ranked_peaks_def argsort_set)
  also have "\<dots> = set ?peaks"
    by (auto simp: set_conv_nth)
  finally show ?thesis .
qed

lemma ranked_peaks_distinct: "distinct (ranked_peaks Sxx)"
proof -
  let ?peaks = "peak_cells Sxx"
  let ?a = "map (\<lambda>(y, x). Sxx ! y ! x) ?peaks"
  have "inj_on (\<lambda>idx. ?peaks ! idx) {0..<length ?peaks}"
    using distinct_peak_cells [of Sxx] by (auto simp: inj_on_def nth_eq_iff_index_eq)
  then show ?thesis
    unfolding ranked_peaks_def
    by (simp add: distinct_map argsort_distinct argsort_set)
qed

lemma ranked_peaks_sorted:
  "sorted_wrt (\<lambda>v w. v \<ge> w) (map (\<lambda>(y, x). Sxx ! y ! x) (ranked_peaks Sxx))"
proof -
  let ?peaks = "peak_cells Sxx"
  let ?val = "\<lambda>(y, x). Sxx ! y ! x"
  let ?a = "map ?val ?peaks"
  have "map ?val (map (\<lambda>idx. ?peaks ! idx) (rev (argsort ?a))) = rev (map (\<lambda>idx. ?a ! idx) (argsort ?a))"
    using argsort_set [of ?a] by (auto simp: rev_map)
  moreover have "sorted_wrt (\<lambda>v w. v \<ge> w) (rev (map (\<lambda>idx. ?a ! idx) (argsort ?a)))"
    using argsort_values_sorted [of ?a] by (simp add: sorted_wrt_rev)
  ultimately show ?thesis by (simp add: ranked_peaks_def)
qed

lemma find_peaks_sorted:
  "sorted_wrt (\<lambda>v w. v \<ge> w) (map (\<lambda>(y, x). Sxx ! y ! x) (find_peaks Sxx))"
  unfolding find_peaks_ranked take_map [symmetric]
  using ranked_peaks_sorted by (rule sorted_wrt_take)

lemma find_peaks_subset: "set (find_peaks Sxx) \<subseteq> set (peak_cells Sxx)"
  unfolding find_peaks_ranked using set_take_subset [of "peak_target Sxx" "ranked_peaks Sxx"]
  by (simp add: ranked_peaks_set)

lemma window_set: "set (window box) = {- int (box div 2) .. int box - int (box div 2) - 1}"
  by (simp add: window_def)

lemma neighbourhood_set:
  "set (neighbourhood Sxx box cval y x) =
     {cell Sxx cval (int y + dy) (int x + dx) | dy dx. dy \<in> set (window box) \<and> dx \<in> set (window box)}"
  by (auto simp: neighbourhood_def)

lemma maximum_filter_nth:
  "y < shape0 Sxx \<Longrightarrow> x < shape1 Sxx \<Longrightarrow>
   maximum_filter Sxx box cval ! y ! x = Max (set (neighbourhood Sxx box cval y x))"
  by (simp add: maximum_filter_def)

lemma maximum_filter_ge:
  assumes "y < shape0 Sxx" "x < shape1 Sxx" "y' < shape0 Sxx" "x' < shape1 Sxx"
    and "int y' - int y \<in> set (window box)" "int x' - int x \<in> set (window box)"
  shows "Sxx ! y' ! x' \<le> maximum_filter Sxx box cval ! y ! x"
proof -
  have "cell Sxx cval (int y + (int y' - int y)) (int x + (int x' - int x)) \<in> set (neighbourhood Sxx box cval y x)"
    unfolding neighbourhood_set using assms(5,6) by blast
  moreover have "cell Sxx cval (int y + (int y' - int y)) (int x + (int x' - int x)) = Sxx ! y' ! x'"
    using assms(3,4) by (simp add: cell_def)
  ultimately have "Sxx ! y' ! x' \<in> set (neighbourhood Sxx box cval y x)" by simp
  then have "Sxx ! y' ! x' \<le> Max (set (neighbourhood Sxx box cval y x))"
    by (intro Max_ge) auto
  then show ?thesis using assms(1,2) by (simp add: maximum_filter_nth)
qed

lemma peak_cells_iff:
  "(y, x) \<in> set (peak_cells Sxx) \<longleftrightarrow>
     y < shape0 Sxx \<and> x < shape1 Sxx \<and> Sxx ! y ! x = maximum_filter Sxx PEAK_BOX_SIZE 0 ! y ! x"
  by (auto simp: peak_cells_def)

text \<open>A matrix with fewer than 1125 cells has the budget 0, so no peak is returned.\<close>

lemma find_peaks_one_cell: "find_peaks [[1]] = []"
proof -
  have "peak_target [[1]] = 0"
    by (simp add: peak_target_def shape0_def shape1_def PEAK_BOX_SIZE_def POINT_EFFICIENCY_def)
  with length_find_peaks [of "[[1]]"] show ?thesis by simp
qed

text \<open>
  The ranking on the test matrix: when the two largest powers among the peak cells are
  unique, the ranked list starts with their cells, whatever the order of the others.
\<close>

lemma two_largest_first:
  fixes v :: "'a \<Rightarrow> real"
  assumes d: "distinct J" and s: "sorted_wrt (\<lambda>p q. p \<ge> q) (map v J)"
    and c2: "c2 \<in> set J" and c1: "c1 \<in> set J"
    and v21: "v c1 < v c2"
    and rest: "\<forall>c \<in> set J. c \<noteq> c2 \<and> c \<noteq> c1 \<longrightarrow> v c < v c1"
  shows "\<exists>rest. J = c2 # c1 # rest"
proof -
  from c2 obtain x J' where J: "J = x # J'" by (cases J) auto
  have x: "x = c2"
  proof (rule ccontr)
    assume "x \<noteq> c2"
    with c2 J have "c2 \<in> set J'" by simp
    with s J have "v c2 \<le> v x" by auto
    moreover have "v x \<le> v c1" using rest J \<open>x \<noteq> c2\<close> by (cases "x = c1") auto
    ultimately show False using v21 by simp
  qed
  have "c1 \<noteq> c2" using v21 by auto
  with c1 J x have c1': "c1 \<in> set J'" by simp
  then obtain y J'' where J': "J' = y # J''" by (cases J') auto
  have y2: "y \<noteq> c2" using d J J' x by auto
  have y: "y = c1"
  proof (rule ccontr)
    assume "y \<noteq> c1"
    with c1' J' have "c1 \<in> set J''" by simp
    with s J J' have "v c1 \<le> v y" by auto
    moreover have "v y < v c1" using rest J J' y2 \<open>y \<noteq> c1\<close> by auto
    ultimately show False by simp
  qed
  show ?thesis using J J' x y by simp
qed

lemma shape0_two_tone: "shape0 (two_tone H a b) = H"
  by (simp add: shape0_def two_tone_def)

lemma shape1_nth: "Sxx \<noteq> [] \<Longrightarrow> shape1 Sxx = length (Sxx ! 0)"
  by (cases Sxx) (simp_all add: shape1_def)

lemma shape1_two_tone: "0 < H \<Longrightarrow> shape1 (two_tone H a b) = 2"
proof -
  assume H: "0 < H"
  then have "two_tone H a b \<noteq> []" by (auto simp: two_tone_def)
  then have "shape1 (two_tone H a b) = length (two_tone H a b ! 0)" by (rule shape1_nth)
  also have "\<dots> = 2" using H by (cases "b = 0"; cases "a = 0") (simp_all add: two_tone_def)
  finally show ?thesis .
qed

lemma two_tone_nth:
  assumes "a < b" "b < H" "y < H" "x < 2"
  shows "two_tone H a b ! y ! x = (if y = a \<and> x = 0 then 2 else if y = b \<and> x = 1 then 1 else 0)"
proof -
  from \<open>x < 2\<close> consider "x = 0" | "x = 1" by linarith
  then show ?thesis using assms by cases (auto simp: two_tone_def nth_list_update)
qed

lemma cell_two_tone:
  assumes "a < b" "b < H"
  shows "cell (two_tone H a b) 0 y x
           = (if y = int a \<and> x = 0 then 2 else if y = int b \<and> x = 1 then 1 else 0)"
proof (cases "0 \<le> y \<and> y < int H \<and> 0 \<le> x \<and> x < 2")
  case True
  then have "nat y < H" "nat x < 2" by auto
  with assms have "two_tone H a b ! nat y ! nat x
      = (if nat y = a \<and> nat x = 0 then 2 else if nat y = b \<and> nat x = 1 then 1 else 0)"
    by (intro two_tone_nth)
  moreover have "cell (two_tone H a b) 0 y x = two_tone H a b ! nat y ! nat x"
    using True assms by (simp add: cell_def shape0_two_tone shape1_two_tone)
  moreover have "nat y = a \<longleftrightarrow> y = int a" "nat y = b \<longleftrightarrow> y = int b" "nat x = 0 \<longleftrightarrow> x = 0"
      "nat x = 1 \<longleftrightarrow> x = 1"
    using True by auto
  ultimately show ?thesis by simp
next
  case False
  then have "cell (two_tone H a b) 0 y x = 0"
    using assms by (auto simp: cell_def shape0_two_tone shape1_two_tone)
  moreover have "\<not> (y = int a \<and> x = 0)" "\<not> (y = int b \<and> x = 1)"
    using False assms by auto
  ultimately show ?thesis by simp
qed

lemma window_30: "set (window PEAK_BOX_SIZE) = {-15..14}"
  by (simp add: window_set PEAK_BOX_SIZE_def)

lemma two_tone_max_a:
  assumes "a < b" "b < H"
  shows "Max (set (neighbourhood (two_tone H a b) PEAK_BOX_SIZE 0 a 0)) = 2"
proof (rule Max_eqI)
  show "finite (set (neighbourhood (two_tone H a b) PEAK_BOX_SIZE 0 a 0))" by simp
  show "v \<le> 2" if "v \<in> set (neighbourhood (two_tone H a b) PEAK_BOX_SIZE 0 a 0)" for v
    using that unfolding neighbourhood_set by (auto simp: cell_two_tone [OF assms])
  have "(0::int) \<in> {-15..14}" by simp
  then have "cell (two_tone H a b) 0 (int a + 0) (int 0 + 0) \<in> set (neighbourhood (two_tone H a b) PEAK_BOX_SIZE 0 a 0)"
    unfolding neighbourhood_set window_30 by blast
  then show "2 \<in> set (neighbourhood (two_tone H a b) PEAK_BOX_SIZE 0 a 0)"
    by (simp add: cell_two_tone [OF assms])
qed

lemma two_tone_max_b:
  assumes "a + 16 \<le> b" "b < H"
  shows "Max (set (neighbourhood (two_tone H a b) PEAK_BOX_SIZE 0 b 1)) = 1"
proof (rule Max_eqI)
  have ab: "a < b" using assms by simp
  show "finite (set (neighbourhood (two_tone H a b) PEAK_BOX_SIZE 0 b 1))" by simp
  show "v \<le> 1" if "v \<in> set (neighbourhood (two_tone H a b) PEAK_BOX_SIZE 0 b 1)" for v
  proof -
    from that obtain dy dx where v: "v = cell (two_tone H a b) 0 (int b + dy) (int 1 + dx)"
        and dy: "dy \<in> {-15..14}"
      unfolding neighbourhood_set window_30 by blast
    from dy assms(1) have "int b + dy \<noteq> int a" by auto
    then show ?thesis unfolding v by (simp add: cell_two_tone [OF ab assms(2)])
  qed
  have "(0::int) \<in> {-15..14}" by simp
  then have "cell (two_tone H a b) 0 (int b + 0) (int 1 + 0) \<in> set (neighbourhood (two_tone H a b) PEAK_BOX_SIZE 0 b 1)"
    unfolding neighbourhood_set window_30 by blast
  then show "1 \<in> set (neighbourhood (two_tone H a b) PEAK_BOX_SIZE 0 b 1)"
    using ab by (simp add: cell_two_tone [OF ab assms(2)])
qed

lemma find_peaks_two_tone:
  assumes "a + 16 \<le> b" "b < H" "peak_target (two_tone H a b) = 2"
  shows "find_peaks (two_tone H a b) = [(a, 0), (b, 1)]"
proof -
  let ?S = "two_tone H a b"
  let ?v = "\<lambda>(y, x). ?S ! y ! x"
  have ab: "a < b" and H: "0 < H" and aH: "a < H" using assms by simp_all
  have va: "?S ! a ! 0 = 2" and vb: "?S ! b ! 1 = 1"
    using two_tone_nth [OF ab assms(2) aH, of 0] two_tone_nth [OF ab assms(2) assms(2), of 1] ab
    by simp_all
  have sh: "a < shape0 ?S" "b < shape0 ?S" "0 < shape1 ?S" "1 < shape1 ?S"
    using aH assms(2) H by (simp_all add: shape0_two_tone shape1_two_tone)
  have pa: "(a, 0) \<in> set (peak_cells ?S)"
    unfolding peak_cells_iff maximum_filter_nth [OF sh(1,3)] two_tone_max_a [OF ab assms(2)]
    using sh va by simp
  have pb: "(b, 1) \<in> set (peak_cells ?S)"
    unfolding peak_cells_iff maximum_filter_nth [OF sh(2,4)] two_tone_max_b [OF assms(1,2)]
    using sh vb by simp
  have others: "\<forall>c \<in> set (ranked_peaks ?S). c \<noteq> (a, 0) \<and> c \<noteq> (b, 1) \<longrightarrow> ?v c < ?v (b, 1)"
  proof (intro ballI impI)
    fix c assume c: "c \<in> set (ranked_peaks ?S)" "c \<noteq> (a, 0) \<and> c \<noteq> (b, 1)"
    obtain y x where yx: "c = (y, x)" by (cases c)
    from c(1) have "y < H" "x < 2"
      unfolding ranked_peaks_set yx peak_cells_iff using H
      by (simp_all add: shape0_two_tone shape1_two_tone)
    then have "?S ! y ! x = 0"
      using c(2) yx two_tone_nth [OF ab assms(2), of y x] by auto
    then show "?v c < ?v (b, 1)" using yx vb by simp
  qed
  have "\<exists>rest. ranked_peaks ?S = (a, 0) # (b, 1) # rest"
    using ranked_peaks_distinct [of ?S] ranked_peaks_sorted [of ?S] pa pb others va vb
    by (intro two_largest_first [where v = ?v]) (simp_all add: ranked_peaks_set)
  then obtain rest where "ranked_peaks ?S = (a, 0) # (b, 1) # rest" by blast
  then show ?thesis
    by (simp add: find_peaks_ranked assms(3) numeral_2_eq_2)
qed

lemma peak_target_two_tone: "peak_target (two_tone 1125 100 120) = 2"
  by (simp add: peak_target_def shape0_two_tone shape1_two_tone PEAK_BOX_SIZE_def POINT_EFFICIENCY_def)

lemma find_peaks_two_tone_1125: "find_peaks (two_tone 1125 100 120) = [(100, 0), (120, 1)]"
  using find_peaks_two_tone [of 100 120 1125] peak_target_two_tone by simp


text \<open>
  C8. For every power matrix, \<open>find_peaks\<close> returns at most
  \<open>floor((H * W / PEAK_BOX_SIZE^2) * POINT_EFFICIENCY)\<close> coordinates, their powers are in
  non-increasing order, and every returned coordinate lies in the matrix and its power
  is at least the power of every cell of the matrix within its neighbourhood, the
  window of 30 by 30 cells from offset -15 to offset 14 on each axis.
\<close>

theorem find_peaks_budget_order_local_max:
  "length (find_peaks Sxx)
     \<le> nat \<lfloor>(real (shape0 Sxx * shape1 Sxx) / real (PEAK_BOX_SIZE ^ 2)) * POINT_EFFICIENCY\<rfloor> \<and>
   sorted_wrt (\<lambda>v w. v \<ge> w) (map (\<lambda>(y, x). Sxx ! y ! x) (find_peaks Sxx)) \<and>
   (\<forall>(y, x) \<in> set (find_peaks Sxx).
      y < shape0 Sxx \<and> x < shape1 Sxx \<and>
      (\<forall>y' x'. y' < shape0 Sxx \<and> x' < shape1 Sxx \<and>
               int y - 15 \<le> int y' \<and> int y' \<le> int y + 14 \<and>
               int x - 15 \<le> int x' \<and> int x' \<le> int x + 14 \<longrightarrow>
               Sxx ! y' ! x' \<le> Sxx ! y ! x))"
proof (intro conjI)
  show "length (find_peaks Sxx)
     \<le> nat \<lfloor>(real (shape0 Sxx * shape1 Sxx) / real (PEAK_BOX_SIZE ^ 2)) * POINT_EFFICIENCY\<rfloor>"
    using length_find_peaks [of Sxx] by (simp add: peak_target_def)
  show "sorted_wrt (\<lambda>v w. v \<ge> w) (map (\<lambda>(y, x). Sxx ! y ! x) (find_peaks Sxx))"
    by (rule find_peaks_sorted)
  show "\<forall>(y, x) \<in> set (find_peaks Sxx).
      y < shape0 Sxx \<and> x < shape1 Sxx \<and>
      (\<forall>y' x'. y' < shape0 Sxx \<and> x' < shape1 Sxx \<and>
               int y - 15 \<le> int y' \<and> int y' \<le> int y + 14 \<and>
               int x - 15 \<le> int x' \<and> int x' \<le> int x + 14 \<longrightarrow>
               Sxx ! y' ! x' \<le> Sxx ! y ! x)"
  proof (intro ballI, clarify, intro conjI allI impI)
    fix y x assume "(y, x) \<in> set (find_peaks Sxx)"
    then have pk: "y < shape0 Sxx" "x < shape1 Sxx"
        "Sxx ! y ! x = maximum_filter Sxx PEAK_BOX_SIZE 0 ! y ! x"
      using find_peaks_subset [of Sxx] peak_cells_iff [of y x Sxx] by auto
    show "y < shape0 Sxx" "x < shape1 Sxx" by (rule pk)+
    fix y' x'
    assume n: "y' < shape0 Sxx \<and> x' < shape1 Sxx \<and>
               int y - 15 \<le> int y' \<and> int y' \<le> int y + 14 \<and>
               int x - 15 \<le> int x' \<and> int x' \<le> int x + 14"
    then have "int y' - int y \<in> set (window PEAK_BOX_SIZE)" "int x' - int x \<in> set (window PEAK_BOX_SIZE)"
      by (auto simp: window_set PEAK_BOX_SIZE_def)
    with n pk(1,2) have "Sxx ! y' ! x' \<le> maximum_filter Sxx PEAK_BOX_SIZE 0 ! y ! x"
      by (intro maximum_filter_ge) auto
    with pk(3) show "Sxx ! y' ! x' \<le> Sxx ! y ! x" by simp
  qed
qed

theorem find_peaks_budget_order_local_max_witness:
  "find_peaks (two_tone 1125 100 120) = [(100, 0), (120, 1)] \<and>
   length (find_peaks (two_tone 1125 100 120)) \<le> 2 \<and>
   two_tone 1125 100 120 ! 100 ! 0 = 2 \<and>
   two_tone 1125 100 120 ! 120 ! 1 = 1 \<and>
   two_tone 1125 100 120 ! 114 ! 1 \<le> two_tone 1125 100 120 ! 100 ! 0"
proof -
  let ?S = "two_tone 1125 100 120"
  have t: "nat \<lfloor>(real (shape0 ?S * shape1 ?S) / real (PEAK_BOX_SIZE ^ 2)) * POINT_EFFICIENCY\<rfloor> = 2"
    using peak_target_two_tone by (simp add: peak_target_def)
  have v: "?S ! 100 ! 0 = 2" "?S ! 120 ! 1 = 1"
    using two_tone_nth [of 100 120 1125 100 0] two_tone_nth [of 100 120 1125 120 1] by simp_all
  have sh: "shape0 ?S = 1125" "shape1 ?S = 2"
    by (simp_all add: shape0_two_tone shape1_two_tone)
  from find_peaks_budget_order_local_max [of ?S]
  have "length (find_peaks ?S) \<le> 2" and
    "\<forall>(y, x) \<in> set (find_peaks ?S).
        \<forall>y' x'. y' < shape0 ?S \<and> x' < shape1 ?S \<and>
               int y - 15 \<le> int y' \<and> int y' \<le> int y + 14 \<and>
               int x - 15 \<le> int x' \<and> int x' \<le> int x + 14 \<longrightarrow>
               ?S ! y' ! x' \<le> ?S ! y ! x"
    unfolding t by auto
  then have "length (find_peaks ?S) \<le> 2" "?S ! 114 ! 1 \<le> ?S ! 100 ! 0"
    unfolding find_peaks_two_tone_1125 sh by simp_all
  then show ?thesis using v find_peaks_two_tone_1125 by simp
qed

subsection \<open>Hash records\<close>

text \<open>The nested loops of \<open>hash_points\<close> produce the records anchor by anchor.\<close>

lemma foldl_append_one: "foldl (\<lambda>hashes x. hashes @ [g x]) acc xs = acc @ map g xs"
  by (induction xs arbitrary: acc) auto

lemma foldl_append_many:
  "foldl (\<lambda>hashes a. foldl (\<lambda>hashes x. hashes @ [g a x]) hashes (tz a)) acc as
     = acc @ concat (map (\<lambda>a. map (g a) (tz a)) as)"
  by (induction as arbitrary: acc) (auto simp: foldl_append_one)

lemma hash_points_concat:
  "hash_points py_hash uuid5_int points filename =
     concat (map (\<lambda>anchor. map (\<lambda>target. (hash_point_pair py_hash anchor target, snd anchor,
                                              song_id_of uuid5_int filename))
                              (target_zone anchor points TARGET_T TARGET_F TARGET_START))
                 points)"
  unfolding hash_points_def song_id_of_def Let_def
  using foldl_append_many [of "\<lambda>anchor target. (hash_point_pair py_hash anchor target, snd anchor,
                                              str_nat (uuid5_int filename))"
      "\<lambda>anchor. target_zone anchor points TARGET_T TARGET_F TARGET_START" "[]" points]
  by simp

lemma hash_points_Nil: "hash_points py_hash uuid5_int [] filename = []"
  by (simp add: hash_points_def)

text \<open>The fingerprint of a file whose spectrogram is the test matrix.\<close>

lemma hash_points_two_tone:
  "hash_points (\<lambda>(a, b, c). \<lfloor>a + 2 * b + 1000 * c\<rfloor>) (\<lambda>_. 42) [(500, 1 / 10), (600, 11 / 40)] ''clip.wav''
     = [(1700, 1 / 10, ''42'')]"
  by code_simp

lemma fingerprint_file_two_tone:
  "fingerprint_file (\<lambda>_. Inr (map (\<lambda>k. 5 * real k) [0..<1125], [1 / 10, 11 / 40], two_tone 1125 100 120))
       (\<lambda>(a, b, c). \<lfloor>a + 2 * b + 1000 * c\<rfloor>) (\<lambda>_. 42) ''clip.wav''
     = Inr [(1700, 1 / 10, ''42'')]"
proof -
  have "idxs_to_tf_pairs [(100, 0), (120, 1)] [1 / 10, 11 / 40] (map (\<lambda>k. 5 * real k) [0..<1125])
          = Inr [(500, 1 / 10), (600, 11 / 40)]"
    by (simp add: idxs_to_tf_pairs_def)
  then show ?thesis
    by (simp add: fingerprint_file_def find_peaks_two_tone_1125 hash_points_two_tone)
qed

section \<open>Properties of storage.py\<close>

lemma song_in_db_iff:
  "song_in_db uuid5_int db filename \<longleftrightarrow>
     (\<exists>row \<in> set (song_info_table db). row_song_id row = song_id_of uuid5_int filename)"
  by (auto simp: song_in_db_def song_id_of_def find_None_iff)

lemma store_song_empty: "store_song [] song_info db = Inr db"
  by (simp add: store_song_def)

lemma store_song_nonempty:
  "hashes \<noteq> [] \<Longrightarrow>
   store_song hashes (Some (i0, i1, i2)) db =
     Inr \<lparr>hash_table = hash_table db @ hashes,
          song_info_table = song_info_table db @
            [(case i0 of Some s \<Rightarrow> s | None \<Rightarrow> ''Unknown'',
              case i1 of Some s \<Rightarrow> s | None \<Rightarrow> ''Unknown'',
              case i2 of Some s \<Rightarrow> s | None \<Rightarrow> ''Unknown'',
              snd (snd (hd hashes)))]\<rparr>"
  by (cases hashes) (simp_all add: store_song_def)

text \<open>
  With \<open>None\<close> in place of the tuple and a non-empty hash list, \<open>store_song\<close> raises
  before the commit.
\<close>

lemma store_song_None: "hashes \<noteq> [] \<Longrightarrow> store_song hashes None db = Inl TypeError"
  by (cases hashes) (simp_all add: store_song_def)

text \<open>
  \<open>store_song\<close> on the arguments its docstring describes. With an empty hash list it
  returns the database unchanged and raises nothing, whatever \<open>song_info\<close> is; a
  spectrogram without peaks gives the empty hash list, so storing the fingerprint of
  such a buffer is this no-op. With a non-empty hash list and a tag tuple, the
  committed database has all the hash rows appended to the hash table and exactly one
  new row in \<open>song_info\<close>, whose key is the song id of the first hash record.
\<close>

lemma store_song_on_tag_tuple:
  "store_song [] song_info db = Inr db \<and>
   hash_points py_hash uuid5_int [] filename = [] \<and>
   (my_spectrogram frames = Inr (f, t, Sxx) \<and> find_peaks Sxx = [] \<longrightarrow>
      fingerprint_audio my_spectrogram py_hash uuid5_int frames = Inr [] \<and>
      store_song [] song_info db = Inr db) \<and>
   (hashes \<noteq> [] \<longrightarrow>
      (\<exists>row. store_song hashes (Some info) db =
               Inr \<lparr>hash_table = hash_table db @ hashes,
                    song_info_table = song_info_table db @ [row]\<rparr> \<and>
             row_song_id row = snd (snd (hd hashes))))"
proof (intro conjI impI)
  show "store_song [] song_info db = Inr db"
    by (rule store_song_empty)
  show "hash_points py_hash uuid5_int [] filename = []"
    by (rule hash_points_Nil)
next
  assume "my_spectrogram frames = Inr (f, t, Sxx) \<and> find_peaks Sxx = []"
  then show "fingerprint_audio my_spectrogram py_hash uuid5_int frames = Inr []"
    by (simp add: fingerprint_audio_def idxs_to_tf_pairs_def hash_points_Nil)
  show "store_song [] song_info db = Inr db"
    by (rule store_song_empty)
next
  assume ne: "hashes \<noteq> []"
  obtain i0 i1 i2 where info: "info = (i0, i1, i2)" by (cases info)
  show "\<exists>row. store_song hashes (Some info) db =
               Inr \<lparr>hash_table = hash_table db @ hashes,
                    song_info_table = song_info_table db @ [row]\<rparr> \<and>
             row_song_id row = snd (snd (hd hashes))"
    unfolding info store_song_nonempty [OF ne] by (simp add: row_song_id_def)
qed

text \<open>
  C10. Every record returned by \<open>hash_points\<close> is built from an anchor of the peak list
  and a target of that anchor's zone: its song id is the stringified UUID integer of
  the file name and its offset is the anchor's time. \<open>song_in_db\<close> looks for a
  \<open>song_info\<close> row with that same identifier. Hence after \<open>store_song\<close> has stored a
  non-empty result of \<open>hash_points\<close> under the key \<open>hashes[0][2]\<close>, \<open>song_in_db\<close>
  finds the file.
\<close>

theorem hash_points_single_song_id:
  "(\<forall>r \<in> set (hash_points py_hash uuid5_int points filename).
      snd (snd r) = song_id_of uuid5_int filename \<and>
      (\<exists>anchor \<in> set points.
         \<exists>target \<in> set (target_zone anchor points TARGET_T TARGET_F TARGET_START).
           r = (hash_point_pair py_hash anchor target, snd anchor, song_id_of uuid5_int filename))) \<and>
   song_id_of uuid5_int filename = str_nat (uuid5_int filename) \<and>
   (song_in_db uuid5_int db filename \<longleftrightarrow>
      (\<exists>row \<in> set (song_info_table db). row_song_id row = song_id_of uuid5_int filename)) \<and>
   (hash_points py_hash uuid5_int points filename \<noteq> [] \<longrightarrow>
      (\<exists>db'. store_song (hash_points py_hash uuid5_int points filename) (Some info) db = Inr db' \<and>
             song_in_db uuid5_int db' filename))"
proof (intro conjI ballI impI)
  fix r assume "r \<in> set (hash_points py_hash uuid5_int points filename)"
  then obtain anchor target where at: "anchor \<in> set points"
      "target \<in> set (target_zone anchor points TARGET_T TARGET_F TARGET_START)"
      "r = (hash_point_pair py_hash anchor target, snd anchor, song_id_of uuid5_int filename)"
    by (auto simp: hash_points_concat)
  then show "snd (snd r) = song_id_of uuid5_int filename" by simp
  from at show "\<exists>anchor \<in> set points.
         \<exists>target \<in> set (target_zone anchor points TARGET_T TARGET_F TARGET_START).
           r = (hash_point_pair py_hash anchor target, snd anchor, song_id_of uuid5_int filename)"
    by blast
next
  show "song_id_of uuid5_int filename = str_nat (uuid5_int filename)"
    by (simp add: song_id_of_def)
next
  show "song_in_db uuid5_int db filename \<longleftrightarrow>
      (\<exists>row \<in> set (song_info_table db). row_song_id row = song_id_of uuid5_int filename)"
    by (rule song_in_db_iff)
next
  let ?hs = "hash_points py_hash uuid5_int points filename"
  assume ne: "?hs \<noteq> []"
  then have "hd ?hs \<in> set ?hs" by simp
  then have key: "snd (snd (hd ?hs)) = song_id_of uuid5_int filename"
    by (auto simp: hash_points_concat)
  obtain i0 i1 i2 where info: "info = (i0, i1, i2)" by (cases info)
  show "\<exists>db'. store_song ?hs (Some info) db = Inr db' \<and> song_in_db uuid5_int db' filename"
    unfolding info using ne key
    by (simp add: store_song_nonempty song_in_db_iff row_song_id_def)
qed

theorem hash_points_single_song_id_witness:
  "hash_points (\<lambda>(a, b, c). \<lfloor>a + 2 * b + 1000 * c\<rfloor>) (\<lambda>_. 42) [(440, 0), (880, 1)] ''a.mp3''
     = [(2200, 0, ''42'')] \<and>
   song_id_of (\<lambda>_. 42) ''a.mp3'' = ''42'' \<and>
   \<not> song_in_db (\<lambda>_. 42) \<lparr>hash_table = [], song_info_table = []\<rparr> ''a.mp3'' \<and>
   (\<exists>db'. store_song [(2200, 0, ''42'')] (Some (Some ''A'', None, Some ''T''))
             \<lparr>hash_table = [], song_info_table = []\<rparr> = Inr db' \<and>
          song_in_db (\<lambda>_. 42) db' ''a.mp3'')"
proof -
  have h: "hash_points (\<lambda>(a, b, c). \<lfloor>a + 2 * b + 1000 * c\<rfloor>) (\<lambda>_. 42) [(440, 0), (880, 1)] ''a.mp3''
     = [(2200, 0, ''42'')]"
    by code_simp
  have s: "song_id_of (\<lambda>_. 42) ''a.mp3'' = ''42''"
    by code_simp
  have n: "\<not> song_in_db (\<lambda>_. 42) \<lparr>hash_table = [], song_info_table = []\<rparr> ''a.mp3''"
    by (simp add: song_in_db_def)
  have "hash_points (\<lambda>(a, b, c). \<lfloor>a + 2 * b + 1000 * c\<rfloor>) (\<lambda>_. 42) [(440, 0), (880, 1)] ''a.mp3'' \<noteq> []"
    unfolding h by simp
  with hash_points_single_song_id [of "\<lambda>(a, b, c). \<lfloor>a + 2 * b + 1000 * c\<rfloor>" "\<lambda>_. 42"
        "[(440, 0), (880, 1)]" "''a.mp3''" "\<lparr>hash_table = [], song_info_table = []\<rparr>"
        "(Some ''A'', None, Some ''T'')"]
  have "\<exists>db'. store_song (hash_points (\<lambda>(a, b, c). \<lfloor>a + 2 * b + 1000 * c\<rfloor>) (\<lambda>_. 42)
                             [(440, 0), (880, 1)] ''a.mp3'')
                 (Some (Some ''A'', None, Some ''T''))
                 \<lparr>hash_table = [], song_info_table = []\<rparr> = Inr db' \<and>
              song_in_db (\<lambda>_. 42) db' ''a.mp3''"
    by blast
  then show ?thesis
    unfolding h using h s n by blast
qed

text \<open>The dictionary \<open>h_dict\<close> holds, for each query hash, the offset of the last record with that hash.\<close>

lemma build_h_dict_snoc: "build_h_dict (hashes @ [(h, t, s)]) = (build_h_dict hashes)(h \<mapsto> t)"
  by (simp add: build_h_dict_def)

lemma build_h_dict_Some_iff:
  "build_h_dict hashes h = Some qo \<longleftrightarrow>
     (\<exists>pre s post. hashes = pre @ (h, qo, s) # post \<and> h \<notin> fst ` set post)"
proof (induction hashes rule: rev_induct)
  case Nil
  show ?case by (simp add: build_h_dict_def)
next
  case (snoc x xs)
  obtain h' t' s' where x: "x = (h', t', s')" by (cases x)
  show ?case
  proof (cases "h = h'")
    case True
    have "(\<exists>pre s post. xs @ [x] = pre @ (h, qo, s) # post \<and> h \<notin> fst ` set post) \<longleftrightarrow> qo = t'"
    proof
      assume "\<exists>pre s post. xs @ [x] = pre @ (h, qo, s) # post \<and> h \<notin> fst ` set post"
      then obtain pre s post where d: "xs @ [x] = pre @ (h, qo, s) # post" "h \<notin> fst ` set post"
        by blast
      show "qo = t'"
      proof (cases post rule: rev_cases)
        case Nil
        with d x show ?thesis by simp
      next
        case (snoc post' y)
        with d have "y = x" by simp
        with snoc d(2) x True show ?thesis by force
      qed
    next
      assume "qo = t'"
      then have "xs @ [x] = xs @ (h, qo, s') # [] \<and> h \<notin> fst ` set []"
        using x True by simp
      then show "\<exists>pre s post. xs @ [x] = pre @ (h, qo, s) # post \<and> h \<notin> fst ` set post"
        by blast
    qed
    then show ?thesis using True x by (auto simp: build_h_dict_snoc)
  next
    case False
    have "(\<exists>pre s post. xs @ [x] = pre @ (h, qo, s) # post \<and> h \<notin> fst ` set post) \<longleftrightarrow>
          (\<exists>pre s post. xs = pre @ (h, qo, s) # post \<and> h \<notin> fst ` set post)"
    proof
      assume "\<exists>pre s post. xs @ [x] = pre @ (h, qo, s) # post \<and> h \<notin> fst ` set post"
      then obtain pre s post where d: "xs @ [x] = pre @ (h, qo, s) # post" "h \<notin> fst ` set post"
        by blast
      show "\<exists>pre s post. xs = pre @ (h, qo, s) # post \<and> h \<notin> fst ` set post"
      proof (cases post rule: rev_cases)
        case Nil
        with d x False show ?thesis by simp
      next
        case (snoc post' y)
        with d have "xs = pre @ (h, qo, s) # post'" "h \<notin> fst ` set post'" by auto
        then show ?thesis by blast
      qed
    next
      assume "\<exists>pre s post. xs = pre @ (h, qo, s) # post \<and> h \<notin> fst ` set post"
      then obtain pre s post where d: "xs = pre @ (h, qo, s) # post" "h \<notin> fst ` set post"
        by blast
      then have "xs @ [x] = pre @ (h, qo, s) # (post @ [x]) \<and> h \<notin> fst ` set (post @ [x])"
        using x False by auto
      then show "\<exists>pre s post. xs @ [x] = pre @ (h, qo, s) # post \<and> h \<notin> fst ` set post"
        by blast
    qed
    then show ?thesis using False x snoc.IH by (simp add: build_h_dict_snoc)
  qed
qed

lemma build_h_dict_dom: "dom (build_h_dict hashes) = fst ` set hashes"
proof (induction hashes rule: rev_induct)
  case Nil
  show ?case by (simp add: build_h_dict_def)
next
  case (snoc x xs)
  obtain h' t' s' where x: "x = (h', t', s')" by (cases x)
  have "dom (build_h_dict (xs @ [x])) = insert h' (dom (build_h_dict xs))"
    unfolding x build_h_dict_snoc by (simp only: dom_fun_upd option.simps if_False)
  then show ?case using snoc.IH x by simp
qed

lemma map_of_dict_append:
  "map_of (dict_append k v d) k' = (if k' = k then Some (dict_get d k @ [v]) else map_of d k')"
  by (induction d) (auto simp: dict_get_def)

lemma keys_dict_append: "map fst (dict_append k v d) = (if k \<in> fst ` set d then map fst d else map fst d @ [k])"
  by (induction d) (force split: if_splits)+

lemma distinct_dict_append: "distinct (map fst d) \<Longrightarrow> distinct (map fst (dict_append k v d))"
  by (simp add: keys_dict_append)

lemma nonempty_dict_append:
  "\<forall>(k, vs) \<in> set d. vs \<noteq> [] \<Longrightarrow> \<forall>(k, vs) \<in> set (dict_append k' v d). vs \<noteq> []"
  by (induction d) (auto split: if_splits)

lemma group_results_ok:
  assumes "\<forall>r \<in> set results. fst r \<in> dom h_dict" "distinct (map fst acc)" "\<forall>(k, vs) \<in> set acc. vs \<noteq> []"
  shows "\<exists>ms. group_results h_dict results acc = Inr ms \<and> distinct (map fst ms) \<and>
              (\<forall>(k, vs) \<in> set ms. vs \<noteq> []) \<and>
              (\<forall>sid. dict_get ms sid = dict_get acc sid @
                        map (\<lambda>r. (fst (snd r), the (h_dict (fst r))))
                            (filter (\<lambda>r. snd (snd r) = sid) results))"
  using assms
proof (induction results arbitrary: acc)
  case Nil
  then show ?case by simp
next
  case (Cons r results)
  from Cons.prems(1) obtain t where t: "h_dict (fst r) = Some t" by auto
  let ?acc = "dict_append (snd (snd r)) (fst (snd r), t) acc"
  have "\<exists>ms. group_results h_dict results ?acc = Inr ms \<and> distinct (map fst ms) \<and>
              (\<forall>(k, vs) \<in> set ms. vs \<noteq> []) \<and>
              (\<forall>sid. dict_get ms sid = dict_get ?acc sid @
                        map (\<lambda>r. (fst (snd r), the (h_dict (fst r))))
                            (filter (\<lambda>r. snd (snd r) = sid) results))"
    using Cons.prems by (intro Cons.IH distinct_dict_append nonempty_dict_append) auto
  then obtain ms where ms: "group_results h_dict results ?acc = Inr ms" "distinct (map fst ms)"
      "\<forall>(k, vs) \<in> set ms. vs \<noteq> []"
      "\<And>sid. dict_get ms sid = dict_get ?acc sid @
                        map (\<lambda>r. (fst (snd r), the (h_dict (fst r))))
                            (filter (\<lambda>r. snd (snd r) = sid) results)"
    by blast
  have "dict_get ?acc sid = dict_get acc sid @ (if snd (snd r) = sid then [(fst (snd r), t)] else [])" for sid
    by (simp add: dict_get_def map_of_dict_append)
  with ms t show ?case by simp
qed

lemma get_matches_ok:
  "\<exists>ms. get_matches hashes db = Inr ms \<and> distinct (map fst ms) \<and>
        (\<forall>(k, vs) \<in> set ms. vs \<noteq> []) \<and>
        (\<forall>sid. dict_get ms sid =
                  map (\<lambda>r. (fst (snd r), the (build_h_dict hashes (fst r))))
                      (filter (\<lambda>r. snd (snd r) = sid)
                              (filter (\<lambda>r. fst r \<in> fst ` set hashes) (hash_table db))))"
proof -
  have "\<forall>r \<in> set (filter (\<lambda>r. fst r \<in> fst ` set hashes) (hash_table db)). fst r \<in> dom (build_h_dict hashes)"
    by (simp add: build_h_dict_dom)
  from group_results_ok [OF this, of "[]"] show ?thesis
    by (simp add: get_matches_def dict_get_def)
qed

lemma in_dict_get_iff:
  "distinct (map fst ms) \<Longrightarrow> (\<exists>offs. (sid, offs) \<in> set ms \<and> p \<in> set offs) \<longleftrightarrow> p \<in> set (dict_get ms sid)"
  by (auto simp: dict_get_def split: option.splits dest: map_of_SomeD)

text \<open>
  C5 (as the code has it). \<open>get_matches\<close> never raises, and a pair
  \<open>(stored_offset, query_offset)\<close> is listed under a song exactly when the hash table
  has a row \<open>(h, stored_offset, song)\<close> whose hash \<open>h\<close> occurs in the query and
  \<open>query_offset\<close> is the offset of the last query record carrying \<open>h\<close>: the records
  before it with the same hash are overwritten in \<open>h_dict\<close>.
\<close>

theorem get_matches_last_query_offset:
  "\<exists>ms. get_matches hashes db = Inr ms \<and>
     (\<forall>sid so qo.
        (\<exists>offs. (sid, offs) \<in> set ms \<and> (so, qo) \<in> set offs) \<longleftrightarrow>
        (\<exists>h pre s post. hashes = pre @ (h, qo, s) # post \<and> h \<notin> fst ` set post \<and>
                        (h, so, sid) \<in> set (hash_table db)))"
proof -
  obtain ms where ms: "get_matches hashes db = Inr ms" "distinct (map fst ms)"
    "\<And>sid. dict_get ms sid =
                  map (\<lambda>r. (fst (snd r), the (build_h_dict hashes (fst r))))
                      (filter (\<lambda>r. snd (snd r) = sid)
                              (filter (\<lambda>r. fst r \<in> fst ` set hashes) (hash_table db)))"
    using get_matches_ok [of hashes db] by blast
  have "(\<exists>offs. (sid, offs) \<in> set ms \<and> (so, qo) \<in> set offs) \<longleftrightarrow>
        (\<exists>h pre s post. hashes = pre @ (h, qo, s) # post \<and> h \<notin> fst ` set post \<and>
                        (h, so, sid) \<in> set (hash_table db))" for sid so qo
  proof -
    have "(\<exists>offs. (sid, offs) \<in> set ms \<and> (so, qo) \<in> set offs) \<longleftrightarrow> (so, qo) \<in> set (dict_get ms sid)"
      using ms(2) by (rule in_dict_get_iff)
    also have "\<dots> \<longleftrightarrow> (\<exists>h. (h, so, sid) \<in> set (hash_table db) \<and> build_h_dict hashes h = Some qo)"
    proof
      assume "(so, qo) \<in> set (dict_get ms sid)"
      then obtain r where r: "r \<in> set (hash_table db)" "snd (snd r) = sid" "fst r \<in> fst ` set hashes"
          "so = fst (snd r)" "qo = the (build_h_dict hashes (fst r))"
        unfolding ms(3) by auto
      from r(3) have "fst r \<in> dom (build_h_dict hashes)" by (simp add: build_h_dict_dom)
      then have "build_h_dict hashes (fst r) = Some qo" using r(5) by auto
      moreover have "(fst r, so, sid) \<in> set (hash_table db)" using r by (cases r) auto
      ultimately show "\<exists>h. (h, so, sid) \<in> set (hash_table db) \<and> build_h_dict hashes h = Some qo"
        by blast
    next
      assume "\<exists>h. (h, so, sid) \<in> set (hash_table db) \<and> build_h_dict hashes h = Some qo"
      then obtain h where h: "(h, so, sid) \<in> set (hash_table db)" "build_h_dict hashes h = Some qo"
        by blast
      then have "h \<in> fst ` set hashes" using build_h_dict_dom [of hashes] by blast
      with h show "(so, qo) \<in> set (dict_get ms sid)"
        unfolding ms(3) by force
    qed
    also have "\<dots> \<longleftrightarrow> (\<exists>h pre s post. hashes = pre @ (h, qo, s) # post \<and> h \<notin> fst ` set post \<and>
                        (h, so, sid) \<in> set (hash_table db))"
      unfolding build_h_dict_Some_iff by blast
    finally show ?thesis .
  qed
  with ms(1) show ?thesis by blast
qed


theorem get_matches_last_query_offset_witness:
  "get_matches [(1, 0, ''q''), (1, 2, ''q'')] \<lparr>hash_table = [(1, 5, ''7'')], song_info_table = []\<rparr>
     = Inr [(''7'', [(5, 2)])] \<and>
   [(1::int, 0::real, ''q''), (1, 2, ''q'')] = [(1, 0, ''q'')] @ (1, 2, ''q'') # [] \<and>
   (1::int) \<notin> fst ` set ([] :: hash_record list)"
proof -
  have g: "get_matches [(1, 0, ''q''), (1, 2, ''q'')] \<lparr>hash_table = [(1, 5, ''7'')], song_info_table = []\<rparr>
     = Inr [(''7'', [(5, 2)])]"
    by code_simp
  show ?thesis
    using get_matches_last_query_offset [of "[(1, 0, ''q''), (1, 2, ''q'')]"
        "\<lparr>hash_table = [(1, 5, ''7'')], song_info_table = []\<rparr>"]
    unfolding g by simp
qed

text \<open>
  The claim with "first" in place of "last" fails: two query records carry the hash 1,
  with offsets 0 and 2, and the stored row is paired with 2.
\<close>

theorem get_matches_first_query_offset_counterexample:
  "get_matches [(1, 0, ''q''), (1, 2, ''q'')] \<lparr>hash_table = [(1, 5, ''7'')], song_info_table = []\<rparr>
     = Inr [(''7'', [(5, 2)])] \<and>
   get_matches [(1, 0, ''q''), (1, 2, ''q'')] \<lparr>hash_table = [(1, 5, ''7'')], song_info_table = []\<rparr>
     \<noteq> Inr [(''7'', [(5, 0)])]"
proof -
  have g: "get_matches [(1, 0, ''q''), (1, 2, ''q'')] \<lparr>hash_table = [(1, 5, ''7'')], song_info_table = []\<rparr>
     = Inr [(''7'', [(5, 2)])]"
    by code_simp
  show ?thesis unfolding g by simp
qed

section \<open>Properties of recognise.py\<close>

lemma get_matches_Nil: "get_matches [] db = Inr []"
  by (simp add: get_matches_def)

lemma best_match_Nil: "best_match [] = Inr None"
  by (simp add: best_match_def)

subsection \<open>Scoring\<close>

lemma py_max_Cons: "py_max (x # xs) = Inr (Max (set (x # xs)))"
  unfolding py_max_def by (simp only: Max.set_eq_fold list.case)

lemma py_min_Cons: "py_min (x # xs) = Inr (Min (set (x # xs)))"
  unfolding py_min_def by (simp only: Min.set_eq_fold list.case)

lemma py_max_nonempty: "xs \<noteq> [] \<Longrightarrow> py_max xs = Inr (Max (set xs))"
  by (cases xs) (simp, simp only: py_max_Cons)

lemma py_min_nonempty: "xs \<noteq> [] \<Longrightarrow> py_min xs = Inr (Min (set xs))"
  by (cases xs) (simp, simp only: py_min_Cons)

lemma py_int_mono: "x \<le> y \<Longrightarrow> py_int x \<le> py_int y"
proof -
  assume xy: "x \<le> y"
  consider "0 \<le> x" | "x < 0" "0 \<le> y" | "y < 0" using xy by linarith
  then show ?thesis
  proof cases
    case 1
    with xy show ?thesis by (simp add: py_int_def floor_mono)
  next
    case 2
    then have "\<lceil>x\<rceil> \<le> 0" "0 \<le> \<lfloor>y\<rfloor>" by (simp_all add: ceiling_le_iff)
    then have "\<lceil>x\<rceil> \<le> \<lfloor>y\<rfloor>" by (rule order_trans)
    with 2 show ?thesis by (simp add: py_int_def)
  next
    case 3
    with xy show ?thesis by (simp add: py_int_def ceiling_mono)
  qed
qed

lemma length_delta_bins:
  "lo \<le> hi \<Longrightarrow> length (delta_bins lo hi (1 / 2)) = nat (2 * (py_int hi - py_int lo) + 3)"
proof -
  assume "lo \<le> hi"
  have "(real_of_int (py_int hi) + 1 / 2 + 1 - real_of_int (py_int lo)) / (1 / 2)
          = real_of_int (2 * (py_int hi - py_int lo) + 3)"
    by simp
  then have "\<lceil>(real_of_int (py_int hi) + 1 / 2 + 1 - real_of_int (py_int lo)) / (1 / 2)\<rceil>
          = 2 * (py_int hi - py_int lo) + 3"
    by (simp only: ceiling_of_int)
  then show ?thesis by (simp add: delta_bins_def arange_def)
qed

lemma score_match_le_length:
  assumes "offsets \<noteq> []"
  shows "\<exists>score. score_match offsets = Inr score \<and> score \<le> length offsets"
proof -
  let ?tks = "map (\<lambda>x. fst x - snd x) offsets"
  let ?lo = "Min (set ?tks)" and ?hi = "Max (set ?tks)"
  let ?hist = "histogram ?tks (delta_bins ?lo ?hi (1 / 2))"
  have ne: "?tks \<noteq> []" using assms by simp
  have "?lo \<le> ?hi" using ne by (simp add: Min_le_iff)
  then have le: "py_int ?lo \<le> py_int ?hi" by (rule py_int_mono)
  have "length (delta_bins ?lo ?hi (1 / 2)) = nat (2 * (py_int ?hi - py_int ?lo) + 3)"
    using \<open>?lo \<le> ?hi\<close> by (rule length_delta_bins)
  with le have "length ?hist > 0" by (simp add: histogram_def)
  then have hne: "?hist \<noteq> []" by simp
  have sm: "score_match offsets = Inr (Max (set ?hist))"
    unfolding score_match_def Let_def py_min_nonempty [OF ne] py_max_nonempty [OF ne]
    by (simp only: sum.case py_max_nonempty [OF hne])
  have "Max (set ?hist) \<in> set ?hist" using hne by (intro Max_in) auto
  then obtain i where "Max (set ?hist) = length (filter (in_bin (delta_bins ?lo ?hi (1 / 2)) i) ?tks)"
    by (auto simp: histogram_def)
  then have "Max (set ?hist) \<le> length ?tks" by simp
  with sm show ?thesis by simp
qed

lemma best_match_loop_naive:
  "\<forall>(song_id, offsets) \<in> set matches. offsets \<noteq> [] \<Longrightarrow>
   best_match_loop matches matched_song best_score
     = best_match_naive_loop matches matched_song best_score"
proof (induction matches arbitrary: matched_song best_score)
  case Nil
  show ?case by simp
next
  case (Cons item items)
  obtain song_id offsets where item: "item = (song_id, offsets)" by (cases item)
  from Cons.prems item have "offsets \<noteq> []" by simp
  then obtain score where sc: "score_match offsets = Inr score" "score \<le> length offsets"
    using score_match_le_length by blast
  have IH: "best_match_loop items m b = best_match_naive_loop items m b" for m b
    using Cons.prems by (intro Cons.IH) simp
  show ?case unfolding item using sc by (simp add: IH)
qed

lemma best_match_naive_loop_returns:
  "\<forall>(song_id, offsets) \<in> set matches. offsets \<noteq> [] \<Longrightarrow>
   \<exists>r. best_match_naive_loop matches matched_song best_score = Inr r"
proof (induction matches arbitrary: matched_song best_score)
  case Nil
  show ?case by simp
next
  case (Cons item items)
  obtain song_id offsets where item: "item = (song_id, offsets)" by (cases item)
  from Cons.prems item have "offsets \<noteq> []" by simp
  then obtain score where sc: "score_match offsets = Inr score"
    using score_match_le_length by blast
  have IH: "\<exists>r. best_match_naive_loop items m b = Inr r" for m b
    using Cons.prems by (intro Cons.IH) simp
  show ?case unfolding item using sc by (simp add: IH)
qed

text \<open>
  C7. For a non-empty list of offset pairs \<open>score_match\<close> returns a score that is at most
  the number of pairs. Therefore, on a match set whose lists are all non-empty,
  \<open>best_match\<close> with its skip returns what the variant without the skip returns, and
  it does return; the match sets that \<open>get_matches\<close> builds are of this kind.
\<close>

theorem best_match_skip_sound:
  "(offsets \<noteq> [] \<longrightarrow> (\<exists>score. score_match offsets = Inr score \<and> score \<le> length offsets)) \<and>
   ((\<forall>(song_id, offs) \<in> set matches. offs \<noteq> []) \<longrightarrow>
      best_match matches = best_match_naive matches \<and> (\<exists>r. best_match matches = Inr r)) \<and>
   (\<exists>ms. get_matches hashes db = Inr ms \<and> best_match ms = best_match_naive ms \<and>
         (\<exists>r. best_match ms = Inr r))"
proof (intro conjI impI)
  assume "offsets \<noteq> []"
  then show "\<exists>score. score_match offsets = Inr score \<and> score \<le> length offsets"
    by (rule score_match_le_length)
next
  assume ne: "\<forall>(song_id, offs) \<in> set matches. offs \<noteq> []"
  then show "best_match matches = best_match_naive matches"
    by (simp add: best_match_def best_match_naive_def best_match_loop_naive)
  from ne show "\<exists>r. best_match matches = Inr r"
    using best_match_naive_loop_returns [OF ne, of None 0]
    by (simp add: best_match_def best_match_loop_naive)
next
  obtain ms where ms: "get_matches hashes db = Inr ms" "\<forall>(k, vs) \<in> set ms. vs \<noteq> []"
    using get_matches_ok [of hashes db] by blast
  have "best_match ms = best_match_naive ms"
    using ms(2) by (simp add: best_match_def best_match_naive_def best_match_loop_naive)
  moreover have "\<exists>r. best_match ms = Inr r"
    using best_match_naive_loop_returns [OF ms(2), of None 0] ms(2)
    by (simp add: best_match_def best_match_loop_naive)
  ultimately show "\<exists>ms. get_matches hashes db = Inr ms \<and> best_match ms = best_match_naive ms \<and>
         (\<exists>r. best_match ms = Inr r)"
    using ms(1) by blast
qed

theorem best_match_skip_sound_witness:
  "score_match [(5, 1), (6, 2)] = Inr 2 \<and>
   best_match [(''a'', [(5, 1), (6, 2)]), (''b'', [(1, 0)])] = Inr (Some ''a'') \<and>
   best_match_naive [(''a'', [(5, 1), (6, 2)]), (''b'', [(1, 0)])] = Inr (Some ''a'')"
proof -
  have s: "score_match [(5, 1), (6, 2)] = Inr 2"
    by code_simp
  have b: "best_match [(''a'', [(5, 1), (6, 2)]), (''b'', [(1, 0)])] = Inr (Some ''a'')"
    by (simp add: best_match_def s)
  show ?thesis
    using best_match_skip_sound [of "[(5, 1), (6, 2)]" "[(''a'', [(5, 1), (6, 2)]), (''b'', [(1, 0)])]"
        "[]" "\<lparr>hash_table = [], song_info_table = []\<rparr>"] s b
    by simp
qed

text \<open>
  A list that is empty is outside the match sets of \<open>get_matches\<close>; there the skip can
  hide the \<open>ValueError\<close> that scoring the empty list raises.
\<close>

lemma best_match_skip_empty_list:
  "best_match [(''a'', [(5, 1)]), (''b'', [])] = Inr (Some ''a'') \<and>
   best_match_naive [(''a'', [(5, 1)]), (''b'', [])] = Inl ValueError"
proof -
  have s: "score_match [(5, 1)] = Inr 1"
    by code_simp
  have e: "score_match [] = Inl ValueError"
    by (simp add: score_match_def py_min_def)
  show ?thesis by (simp add: best_match_def best_match_naive_def s e)
qed

text \<open>
  C6 at a negative delta. \<open>int\<close> truncates towards zero, so for the single pair
  \<open>(0, 0.5)\<close> the delta is \<open>-0.5\<close>, the edges are \<open>[0, 0.5, 1]\<close>, the delta lies below
  the first edge, no bin counts it, and the score of a list with one pair is 0.
\<close>

theorem score_match_drops_negative_delta:
  "score_match [(0, 1 / 2)] = Inr 0 \<and>
   delta_bins (- 1 / 2) (- 1 / 2) (1 / 2) = [0, 1 / 2, 1] \<and>
   histogram [- 1 / 2] [0, 1 / 2, 1] = [0, 0]"
  by code_simp

subsection \<open>Recognition and registration\<close>

text \<open>
  C3. \<open>get_matches\<close> on the empty list of query records returns the empty mapping and
  raises nothing; \<open>best_match\<close> of the empty mapping is \<open>None\<close>; and when the fingerprint
  of a file is the empty list, \<open>recognise_song\<close> prints "Did not find a result" and
  returns \<open>None\<close>.
\<close>

theorem empty_query_no_match:
  "get_matches [] db = Inr [] \<and>
   best_match [] = Inr None \<and>
   (fingerprint_file file_to_spectrogram py_hash uuid5_int filename = Inr [] \<longrightarrow>
      recognise_song file_to_spectrogram py_hash uuid5_int filename db out
        = Inr (None, out @ [PText ''Did not find a result'']))"
  by (simp add: get_matches_Nil best_match_Nil recognise_song_def get_info_for_song_id_def
      py_print_def)

theorem empty_query_no_match_witness:
  "fingerprint_file (\<lambda>_. Inr ([0], [0], [[1]])) (\<lambda>_. 0) (\<lambda>_. 42) ''a.mp3'' = Inr [] \<and>
   recognise_song (\<lambda>_. Inr ([0], [0], [[1]])) (\<lambda>_. 0) (\<lambda>_. 42) ''a.mp3''
       \<lparr>hash_table = [(1, 5, ''7'')], song_info_table = [(''A'', ''B'', ''C'', ''7'')]\<rparr> []
     = Inr (None, [PText ''Did not find a result''])"
proof -
  have f: "fingerprint_file (\<lambda>_. Inr ([0], [0], [[1]])) (\<lambda>_. 0) (\<lambda>_. 42) ''a.mp3'' = Inr []"
    by (simp add: fingerprint_file_def find_peaks_one_cell idxs_to_tf_pairs_def hash_points_Nil)
  show ?thesis
    using f empty_query_no_match [of "\<lparr>hash_table = [(1, 5, ''7'')], song_info_table = [(''A'', ''B'', ''C'', ''7'')]\<rparr>"
        "\<lambda>_. Inr ([0], [0], [[1]])" "\<lambda>_. 0" "\<lambda>_. 42" "''a.mp3''" "[]"]
    by simp
qed

text \<open>
  What \<open>recognise_song\<close> returns when every stage succeeds: \<open>None\<close> after printing the
  tags when the tags of the matched song are found, and \<open>None\<close> after printing
  "Did not find a result" when no song is matched.
\<close>

lemma recognise_song_match:
  assumes "fingerprint_file file_to_spectrogram py_hash uuid5_int filename = Inr hashes"
    and "get_matches hashes db = Inr matches"
    and "best_match matches = Inr matched_song"
    and "get_info_for_song_id db matched_song = Some info"
  shows "recognise_song file_to_spectrogram py_hash uuid5_int filename db out
           = Inr (None, out @ [PInfo info])"
  using assms by (simp add: recognise_song_def py_print_def)

lemma recognise_song_no_match:
  assumes "fingerprint_file file_to_spectrogram py_hash uuid5_int filename = Inr hashes"
    and "get_matches hashes db = Inr matches"
    and "best_match matches = Inr None"
  shows "recognise_song file_to_spectrogram py_hash uuid5_int filename db out
           = Inr (None, out @ [PText ''Did not find a result''])"
  using assms by (simp add: recognise_song_def py_print_def get_info_for_song_id_def)

text \<open>
  C2 at a match. The database holds the fingerprint and the tags of a song; the clip
  has the same fingerprint, so the song is matched and its tags are found. Then
  \<open>recognise_song\<close> prints the tags and returns \<open>None\<close>, the value of \<open>print\<close>, and not
  the tuple.
\<close>

theorem recognise_song_returns_None_on_match:
  "get_info_for_song_id
       \<lparr>hash_table = [(1700, 1 / 10, ''42'')], song_info_table = [(''Artist'', ''Album'', ''Title'', ''42'')]\<rparr>
       (Some ''42'')
     = Some (''Artist'', ''Album'', ''Title'') \<and>
   recognise_song
       (\<lambda>_. Inr (map (\<lambda>k. 5 * real k) [0..<1125], [1 / 10, 11 / 40], two_tone 1125 100 120))
       (\<lambda>(a, b, c). \<lfloor>a + 2 * b + 1000 * c\<rfloor>) (\<lambda>_. 42) ''clip.wav''
       \<lparr>hash_table = [(1700, 1 / 10, ''42'')], song_info_table = [(''Artist'', ''Album'', ''Title'', ''42'')]\<rparr>
       []
     = Inr (None, [PInfo (''Artist'', ''Album'', ''Title'')])"
proof -
  let ?db = "\<lparr>hash_table = [(1700, 1 / 10, ''42'')],
              song_info_table = [(''Artist'', ''Album'', ''Title'', ''42'')]\<rparr>"
  have m: "get_matches [(1700, 1 / 10, ''42'')] ?db = Inr [(''42'', [(1 / 10, 1 / 10)])]"
    by code_simp
  have sc: "score_match [(1 / 10, 1 / 10)] = Inr 1"
    by code_simp
  have b: "best_match [(''42'', [(1 / 10, 1 / 10)])] = Inr (Some ''42'')"
    by (simp add: best_match_def sc)
  have i: "get_info_for_song_id ?db (Some ''42'') = Some (''Artist'', ''Album'', ''Title'')"
    by (simp add: get_info_for_song_id_def row_song_id_def)
  show ?thesis
    by (simp add: recognise_song_def fingerprint_file_two_tone m b i py_print_def)
qed

text \<open>
  C4. Whenever \<open>get_song_info\<close> returns, it returns \<open>None\<close>: when the tags can be read it
  prints the tuple \<open>(artist, album, title)\<close> and returns what \<open>print\<close> returns. So
  \<open>register_song\<close>, on either path to the write, calls \<open>store_song\<close> with \<open>None\<close> as
  \<open>song_info\<close>.
\<close>

theorem get_song_info_returns_None:
  "(\<forall>r. get_song_info tinytag_get filename out = Inr r \<longrightarrow> fst r = None) \<and>
   (tinytag_get filename = Inr tg \<longrightarrow>
      get_song_info tinytag_get filename out =
        Inr (None, out @ [PTags (if albumartist tg = None then artist tg else albumartist tg,
                                 album tg, title tg)])) \<and>
   register_song file_to_spectrogram py_hash uuid5_int tinytag_get lock_defined filename db out =
     (if song_in_db uuid5_int db filename then Inr (db, out)
      else case fingerprint_file file_to_spectrogram py_hash uuid5_int filename of
             Inl e \<Rightarrow> Inl e
           | Inr hashes \<Rightarrow>
               (case tinytag_get filename of
                  Inl e \<Rightarrow> Inl e
                | Inr tg \<Rightarrow>
                    (case store_song hashes None db of
                       Inl e \<Rightarrow> Inl e
                     | Inr db' \<Rightarrow>
                         Inr (db', out @ [PTags (if albumartist tg = None then artist tg
                                                 else albumartist tg, album tg, title tg)]))))"
  by (auto simp: get_song_info_def register_song_def py_print_def Let_def split: sum.splits)

theorem get_song_info_returns_None_witness:
  "get_song_info (\<lambda>_. Inr \<lparr>artist = Some ''A'', albumartist = None, album = Some ''B'', title = Some ''C''\<rparr>)
       ''clip.wav'' []
     = Inr (None, [PTags (Some ''A'', Some ''B'', Some ''C'')]) \<and>
   register_song
       (\<lambda>_. Inr (map (\<lambda>k. 5 * real k) [0..<1125], [1 / 10, 11 / 40], two_tone 1125 100 120))
       (\<lambda>(a, b, c). \<lfloor>a + 2 * b + 1000 * c\<rfloor>) (\<lambda>_. 42)
       (\<lambda>_. Inr \<lparr>artist = Some ''A'', albumartist = None, album = Some ''B'', title = Some ''C''\<rparr>)
       False ''clip.wav'' \<lparr>hash_table = [], song_info_table = []\<rparr> []
     = Inl TypeError"
proof -
  have n: "\<not> song_in_db (\<lambda>_. 42) \<lparr>hash_table = [], song_info_table = []\<rparr> ''clip.wav''"
    by (simp add: song_in_db_def)
  have st: "store_song [(1700, 1 / 10, ''42'')] None \<lparr>hash_table = [], song_info_table = []\<rparr>
              = Inl TypeError"
    by (simp add: store_song_None)
  show ?thesis
    using get_song_info_returns_None [of
        "\<lambda>_. Inr \<lparr>artist = Some ''A'', albumartist = None, album = Some ''B'', title = Some ''C''\<rparr>"
        "''clip.wav''" "[]"
        "\<lparr>artist = Some ''A'', albumartist = None, album = Some ''B'', title = Some ''C''\<rparr>"
        "\<lambda>_. Inr (map (\<lambda>k. 5 * real k) [0..<1125], [1 / 10, 11 / 40], two_tone 1125 100 120)"
        "\<lambda>(a, b, c). \<lfloor>a + 2 * b + 1000 * c\<rfloor>" "\<lambda>_. 42" False
        "\<lparr>hash_table = [], song_info_table = []\<rparr>"]
    by (simp add: n st fingerprint_file_two_tone)
qed

text \<open>
  A consequence: registering a file that is not yet known and whose fingerprint is not
  empty raises \<open>TypeError\<close> in \<open>store_song\<close>, and nothing is committed.
\<close>

lemma register_song_raises:
  assumes "\<not> song_in_db uuid5_int db filename"
    and "fingerprint_file file_to_spectrogram py_hash uuid5_int filename = Inr hashes"
    and "hashes \<noteq> []"
    and "tinytag_get filename = Inr tg"
  shows "register_song file_to_spectrogram py_hash uuid5_int tinytag_get lock_defined filename db out
           = Inl TypeError"
  using assms
  by (simp add: register_song_def get_song_info_def py_print_def store_song_None)

text \<open>
  C9 at a registration. The part of the claim about the empty hash list holds
  (\<open>store_song_empty\<close>). For a non-empty hash list the claim says that all hash rows and
  one \<open>song_info\<close> row are inserted, which is what \<open>store_song\<close> does with a tag tuple.
  But the program never calls it with one: \<open>register_song\<close>, its only caller, passes the
  \<open>None\<close> of \<open>get_song_info\<close>. For a file with the fingerprint \<open>[(1700, 0.1, '42')]\<close> and
  readable tags, \<open>store_song\<close> raises \<open>TypeError\<close> before the commit, on the path with
  the lock and on the path without it, and no row is written; with the tags as a tuple
  the same call stores the hash row and the \<open>song_info\<close> row.
\<close>

theorem store_song_raises_at_registration:
  "fingerprint_file
       (\<lambda>_. Inr (map (\<lambda>k. 5 * real k) [0..<1125], [1 / 10, 11 / 40], two_tone 1125 100 120))
       (\<lambda>(a, b, c). \<lfloor>a + 2 * b + 1000 * c\<rfloor>) (\<lambda>_. 42) ''clip.wav''
     = Inr [(1700, 1 / 10, ''42'')] \<and>
   get_song_info (\<lambda>_. Inr \<lparr>artist = Some ''A'', albumartist = None, album = Some ''B'', title = Some ''C''\<rparr>)
       ''clip.wav'' []
     = Inr (None, [PTags (Some ''A'', Some ''B'', Some ''C'')]) \<and>
   store_song [(1700, 1 / 10, ''42'')] None \<lparr>hash_table = [], song_info_table = []\<rparr>
     = Inl TypeError \<and>
   register_song
       (\<lambda>_. Inr (map (\<lambda>k. 5 * real k) [0..<1125], [1 / 10, 11 / 40], two_tone 1125 100 120))
       (\<lambda>(a, b, c). \<lfloor>a + 2 * b + 1000 * c\<rfloor>) (\<lambda>_. 42)
       (\<lambda>_. Inr \<lparr>artist = Some ''A'', albumartist = None, album = Some ''B'', title = Some ''C''\<rparr>)
       True ''clip.wav'' \<lparr>hash_table = [], song_info_table = []\<rparr> []
     = Inl TypeError \<and>
   register_song
       (\<lambda>_. Inr (map (\<lambda>k. 5 * real k) [0..<1125], [1 / 10, 11 / 40], two_tone 1125 100 120))
       (\<lambda>(a, b, c). \<lfloor>a + 2 * b + 1000 * c\<rfloor>) (\<lambda>_. 42)
       (\<lambda>_. Inr \<lparr>artist = Some ''A'', albumartist = None, album = Some ''B'', title = Some ''C''\<rparr>)
       False ''clip.wav'' \<lparr>hash_table = [], song_info_table = []\<rparr> []
     = Inl TypeError \<and>
   store_song [(1700, 1 / 10, ''42'')] (Some (Some ''A'', Some ''B'', Some ''C''))
       \<lparr>hash_table = [], song_info_table = []\<rparr>
     = Inr \<lparr>hash_table = [(1700, 1 / 10, ''42'')], song_info_table = [(''A'', ''B'', ''C'', ''42'')]\<rparr>"
proof -
  let ?fts = "\<lambda>_ :: string. (Inr (map (\<lambda>k. 5 * real k) [0..<1125], [1 / 10, 11 / 40], two_tone 1125 100 120)
                              :: error + spectrogram)"
  let ?tags = "\<lambda>_ :: string. (Inr \<lparr>artist = Some ''A'', albumartist = None, album = Some ''B'',
                                     title = Some ''C''\<rparr> :: error + tag)"
  let ?db = "\<lparr>hash_table = [], song_info_table = []\<rparr>"
  have n: "\<not> song_in_db (\<lambda>_. 42) ?db ''clip.wav''"
    by (simp add: song_in_db_def)
  have g: "get_song_info ?tags ''clip.wav'' [] = Inr (None, [PTags (Some ''A'', Some ''B'', Some ''C'')])"
    by (simp add: get_song_info_def py_print_def)
  have st: "store_song [(1700, 1 / 10, ''42'')] None ?db = Inl TypeError"
    by (simp add: store_song_None)
  have r: "register_song ?fts (\<lambda>(a, b, c). \<lfloor>a + 2 * b + 1000 * c\<rfloor>) (\<lambda>_. 42) ?tags lock_defined
             ''clip.wav'' ?db [] = Inl TypeError" for lock_defined
    using n fingerprint_file_two_tone
    by (intro register_song_raises [where hashes = "[(1700, 1 / 10, ''42'')]"]) simp_all
  have ok: "store_song [(1700, 1 / 10, ''42'')] (Some (Some ''A'', Some ''B'', Some ''C'')) ?db
              = Inr \<lparr>hash_table = [(1700, 1 / 10, ''42'')],
                     song_info_table = [(''A'', ''B'', ''C'', ''42'')]\<rparr>"
    by (simp add: store_song_nonempty)
  show ?thesis
    using fingerprint_file_two_tone g st r [of True] r [of False] ok by simp
qed

end
